theory Spec2Isabelle
  imports Complex_Main "HOL-Library.Word"
begin

text \<open>
  The repository is a set of HTTP handlers that relay requests to three kinds of backend: an
  image-generation web UI, a node-graph generation server and a hosted multimodal provider.
  Each handler is embedded as a function from the inbound request and the answers of the
  backend to the list of events of the run (outbound calls, waits, console output) and the
  call that answers the inbound request.
\<close>

section \<open>JavaScript values\<close>

text \<open>
  A JavaScript string is a sequence of UTF-16 code units.  String literals of the source
  are ASCII (apart from \<open>dangerousPatterns\<close>, given by its code units below) and are
  written with \<open>lit\<close>.
\<close>

type_synonym jchar = "16 word"
type_synonym jstr = "jchar list"

definition lit :: "string \<Rightarrow> jstr" where
  "lit s = map (\<lambda>c. of_nat (of_char c)) s"

text \<open>
  The values the handlers see: a parsed JSON document (request body, backend response) or
  \<open>undefined\<close>.  A JSON number is the rational value of the double it was parsed to.
  An object is the list of its own properties in the order \<open>Object.keys\<close> enumerates
  them; no property of such a value is a function.
\<close>

datatype js = Undefined | Null | Bool bool | Num rat | Str jstr | Arr "js list" | Obj "(jstr \<times> js) list"

text \<open>
  Three facts of the language runtime are parameters: \<open>Number::toString\<close>, the
  string-to-number conversion (\<open>None\<close> is \<open>NaN\<close>), and the names of the members that
  an array, a string, a number or a boolean inherits from the prototype of its own kind
  (\<open>Array.prototype\<close>, \<open>String.prototype\<close>, \<open>Number.prototype\<close>,
  \<open>Boolean.prototype\<close>), which vary with the version of the engine.
\<close>

record runtime =
  NumberToString :: "rat \<Rightarrow> jstr"
  StringToNumber :: "jstr \<Rightarrow> rat option"
  PrototypeMember :: "js \<Rightarrow> jstr \<Rightarrow> bool"

datatype exn = Error string "jstr option" | TypeError | RangeError | SyntaxError | FetchError

fun truthy :: "js \<Rightarrow> bool" where
  "truthy Undefined = False"
| "truthy Null = False"
| "truthy (Bool b) = b"
| "truthy (Num q) = (q \<noteq> 0)"
| "truthy (Str s) = (s \<noteq> [])"
| "truthy (Arr xs) = True"
| "truthy (Obj kvs) = True"

fun join_comma :: "jstr list \<Rightarrow> jstr" where
  "join_comma [] = []"
| "join_comma [x] = x"
| "join_comma (x # y # ys) = x @ 0x2C # join_comma (y # ys)"

text \<open>
  \<open>String(x)\<close>, template interpolation and property-key conversion.  An object is
  converted by its \<open>toString\<close> method, then by \<open>valueOf\<close>: an own property
  \<open>toString\<close> hides the inherited method and is not callable, the inherited
  \<open>valueOf\<close> returns the object itself and an own \<open>valueOf\<close> is not callable
  either, so that the conversion throws a \<open>TypeError\<close>.  An array is converted by
  \<open>join\<close>, which converts every element other than \<open>undefined\<close> and \<open>null\<close>.
\<close>

fun to_string :: "runtime \<Rightarrow> js \<Rightarrow> exn + jstr"
  and join_strings :: "runtime \<Rightarrow> js list \<Rightarrow> exn + jstr list" where
  "to_string rt Undefined = Inr (lit ''undefined'')"
| "to_string rt Null = Inr (lit ''null'')"
| "to_string rt (Bool b) = Inr (if b then lit ''true'' else lit ''false'')"
| "to_string rt (Num q) = Inr (NumberToString rt q)"
| "to_string rt (Str s) = Inr s"
| "to_string rt (Arr xs) =
     (case join_strings rt xs of Inl e \<Rightarrow> Inl e | Inr ss \<Rightarrow> Inr (join_comma ss))"
| "to_string rt (Obj kvs) =
     (if lit ''toString'' \<in> set (map fst kvs) then Inl TypeError
      else Inr (lit ''[object Object]''))"
| "join_strings rt [] = Inr []"
| "join_strings rt (v # vs) =
     (case (if v = Undefined \<or> v = Null then Inr [] else to_string rt v) of
        Inl e \<Rightarrow> Inl e
      | Inr s \<Rightarrow> (case join_strings rt vs of Inl e \<Rightarrow> Inl e | Inr ss \<Rightarrow> Inr (s # ss)))"

section \<open>Prompt sanitizer\<close>

text \<open>\<open>x.replace(/  /g, ' ')\<close>: one left-to-right pass over non-overlapping pairs of spaces.\<close>

fun collapse :: "jstr \<Rightarrow> jstr" where
  "collapse (a # b # cs) =
     (if a = 0x20 \<and> b = 0x20 then 0x20 # collapse cs else a # collapse (b # cs))"
| "collapse cs = cs"

text \<open>The class \<open>\s\<close> of a regular expression; \<open>trim\<close> removes the same code units.\<close>

definition is_space :: "jchar \<Rightarrow> bool" where
  "is_space c = (c \<in> set [0x09, 0x0A, 0x0B, 0x0C, 0x0D, 0x20, 0xA0, 0x1680, 0x2000, 0x2001,
     0x2002, 0x2003, 0x2004, 0x2005, 0x2006, 0x2007, 0x2008, 0x2009, 0x200A, 0x2028, 0x2029,
     0x202F, 0x205F, 0x3000, 0xFEFF])"

definition drop_end :: "('a \<Rightarrow> bool) \<Rightarrow> 'a list \<Rightarrow> 'a list" where
  "drop_end P xs = rev (dropWhile P (rev xs))"

definition trim :: "jstr \<Rightarrow> jstr" where
  "trim x = drop_end is_space (dropWhile is_space x)"

text \<open>The class \<open>[\s,.]\<close> and \<open>x.replace(/^[\s,.]+|[\s,.]+$/g, '')\<close>.\<close>

definition is_edge :: "jchar \<Rightarrow> bool" where
  "is_edge c = (is_space c \<or> c = 0x2C \<or> c = 0x2E)"

definition strip_edges :: "jstr \<Rightarrow> jstr" where
  "strip_edges x = drop_end is_edge (dropWhile is_edge x)"

definition safeStr :: "runtime \<Rightarrow> js \<Rightarrow> exn + jstr" where
  "safeStr rt x0 =
     (case to_string rt x0 of
        Inl e \<Rightarrow> Inl e
      | Inr x \<Rightarrow>
          (let x = (collapse ^^ 16) x;
               x = trim x;
               x = strip_edges x
           in Inr x))"

text \<open>The longest run of consecutive spaces (U+0020) of a string.\<close>

fun longest_run :: "jstr \<Rightarrow> nat" where
  "longest_run [] = 0"
| "longest_run (c # cs) =
     max (if c = 0x20 then Suc (length (takeWhile (\<lambda>d. d = 0x20) cs)) else 0) (longest_run cs)"

section \<open>Property access\<close>

fun dec :: "nat \<Rightarrow> jstr" where
  "dec n = (if n < 10 then [of_nat (48 + n)] else dec (n div 10) @ [of_nat (48 + n mod 10)])"

definition is_digit :: "jchar \<Rightarrow> bool" where
  "is_digit c = (0x30 \<le> c \<and> c \<le> 0x39)"

text \<open>A property key that is a canonical array index.\<close>

definition array_index :: "jstr \<Rightarrow> nat option" where
  "array_index k =
     (if k \<noteq> [] \<and> list_all is_digit k \<and> (hd k \<noteq> 0x30 \<or> length k = 1)
      then Some (foldl (\<lambda>n c. 10 * n + (unat c - 48)) 0 k) else None)"

text \<open>
  \<open>v.k\<close> for a property name written in the source, and \<open>v[k]\<close> for a key that
  \<open>Object.keys(v)\<close> returned: the own property of that name, or \<open>undefined\<close>.
  (None of the names written in the handlers is the name of a member of a built-in
  prototype; the lookup under a key that the backend chooses is \<open>get_computed\<close> below.)
  Reading a property of \<open>undefined\<close> or \<open>null\<close> throws.
\<close>

fun get_prop :: "js \<Rightarrow> jstr \<Rightarrow> exn + js" where
  "get_prop Undefined k = Inl TypeError"
| "get_prop Null k = Inl TypeError"
| "get_prop (Bool b) k = Inr Undefined"
| "get_prop (Num q) k = Inr Undefined"
| "get_prop (Str s) k =
     Inr (case array_index k of
            Some i \<Rightarrow> if i < length s then Str [s ! i] else Undefined
          | None \<Rightarrow> if k = lit ''length'' then Num (of_nat (length s)) else Undefined)"
| "get_prop (Arr xs) k =
     Inr (case array_index k of
            Some i \<Rightarrow> if i < length xs then xs ! i else Undefined
          | None \<Rightarrow> if k = lit ''length'' then Num (of_nat (length xs)) else Undefined)"
| "get_prop (Obj kvs) k = Inr (case map_of kvs k of Some v \<Rightarrow> v | None \<Rightarrow> Undefined)"

text \<open>
  \<open>v[k]\<close> for a computed key.  When the value has no own property of that name the
  lookup goes on in its prototypes: every value inherits the members of
  \<open>Object.prototype\<close>, and an array, string, number or boolean those of its own
  prototype.  Such a member is a function (or, for \<open>__proto__\<close>, the prototype object):
  it is truthy, it is not a JSON value, and it has none of the properties that the handlers
  read from it.
\<close>

definition object_prototype_members :: "jstr list" where
  "object_prototype_members =
     map lit [''constructor'', ''__defineGetter__'', ''__defineSetter__'', ''hasOwnProperty'',
       ''__lookupGetter__'', ''__lookupSetter__'', ''isPrototypeOf'', ''propertyIsEnumerable'',
       ''toString'', ''valueOf'', ''__proto__'', ''toLocaleString'']"

datatype looked_up = Own js | Member

fun has_own :: "js \<Rightarrow> jstr \<Rightarrow> bool" where
  "has_own (Str s) k =
     (case array_index k of Some i \<Rightarrow> i < length s | None \<Rightarrow> k = lit ''length'')"
| "has_own (Arr xs) k =
     (case array_index k of Some i \<Rightarrow> i < length xs | None \<Rightarrow> k = lit ''length'')"
| "has_own (Obj kvs) k = (k \<in> set (map fst kvs))"
| "has_own v k = False"

definition is_object :: "js \<Rightarrow> bool" where
  "is_object v = (case v of Obj kvs \<Rightarrow> True | _ \<Rightarrow> False)"

definition get_computed :: "runtime \<Rightarrow> js \<Rightarrow> jstr \<Rightarrow> exn + looked_up" where
  "get_computed rt v k =
     (case get_prop v k of
        Inl e \<Rightarrow> Inl e
      | Inr w \<Rightarrow>
          if has_own v k then Inr (Own w)
          else if k \<in> set object_prototype_members \<or> (\<not> is_object v \<and> PrototypeMember rt v k)
          then Inr Member
          else Inr (Own Undefined))"

text \<open>\<open>if (item)\<close> and \<open>item.outputs\<close> for the result of such a lookup.\<close>

fun truthy_item :: "looked_up \<Rightarrow> bool" where
  "truthy_item (Own v) = truthy v"
| "truthy_item Member = True"

fun outputs_of :: "looked_up \<Rightarrow> exn + js" where
  "outputs_of (Own v) = get_prop v (lit ''outputs'')"
| "outputs_of Member = Inr Undefined"

text \<open>\<open>Object.keys(v)\<close>.\<close>

fun object_keys :: "js \<Rightarrow> exn + jstr list" where
  "object_keys Undefined = Inl TypeError"
| "object_keys Null = Inl TypeError"
| "object_keys (Bool b) = Inr []"
| "object_keys (Num q) = Inr []"
| "object_keys (Str s) = Inr (map dec [0..<length s])"
| "object_keys (Arr xs) = Inr (map dec [0..<length xs])"
| "object_keys (Obj kvs) = Inr (map fst kvs)"

fun map_exn :: "('a \<Rightarrow> exn + 'b) \<Rightarrow> 'a list \<Rightarrow> exn + 'b list" where
  "map_exn f [] = Inr []"
| "map_exn f (x # xs) =
     (case f x of Inl e \<Rightarrow> Inl e
      | Inr y \<Rightarrow> (case map_exn f xs of Inl e \<Rightarrow> Inl e | Inr ys \<Rightarrow> Inr (y # ys)))"

text \<open>\<open>data.map(f)\<close>: only an array has a \<open>map\<close> method.\<close>

fun js_map :: "(js \<Rightarrow> exn + js) \<Rightarrow> js \<Rightarrow> exn + js list" where
  "js_map f (Arr xs) = map_exn f xs"
| "js_map f v = Inl TypeError"

text \<open>\<open>xs.flat()\<close>, one level deep.\<close>

fun flat :: "js list \<Rightarrow> js list" where
  "flat [] = []"
| "flat (Arr xs # r) = xs @ flat r"
| "flat (v # r) = v # flat r"

text \<open>\<open>xs.splice(start, 0, ...ys)\<close>: the list after the insertion.\<close>

definition splice_insert :: "nat \<Rightarrow> 'a list \<Rightarrow> 'a list \<Rightarrow> 'a list" where
  "splice_insert start xs ys = take start xs @ ys @ drop start xs"

text \<open>
  \<open>v == 0.0\<close>: an array or object is first converted to a primitive, which goes through
  \<open>valueOf\<close> (not callable, or returning the value itself) and then \<open>toString\<close>, so
  that it gives the string conversion or throws as that one does.
\<close>

fun loose_eq_zero :: "runtime \<Rightarrow> js \<Rightarrow> exn + bool" where
  "loose_eq_zero rt Undefined = Inr False"
| "loose_eq_zero rt Null = Inr False"
| "loose_eq_zero rt (Bool b) = Inr (\<not> b)"
| "loose_eq_zero rt (Num q) = Inr (q = 0)"
| "loose_eq_zero rt (Str s) = Inr (StringToNumber rt s = Some 0)"
| "loose_eq_zero rt (Arr xs) =
     (case to_string rt (Arr xs) of Inl e \<Rightarrow> Inl e | Inr s \<Rightarrow> Inr (StringToNumber rt s = Some 0))"
| "loose_eq_zero rt (Obj kvs) =
     (case to_string rt (Obj kvs) of Inl e \<Rightarrow> Inl e | Inr s \<Rightarrow> Inr (StringToNumber rt s = Some 0))"

section \<open>URLs\<close>

text \<open>
  A parsed \<open>URL\<close> object, by the values of its getters.  \<open>opaque_path\<close> holds for a URL
  such as \<open>mailto:x\<close>, whose path is not a list of segments.
\<close>

record url =
  protocol :: jstr
  username :: jstr
  password :: jstr
  hostname :: jstr
  port :: jstr
  pathname :: jstr
  search :: jstr
  hash :: jstr
  opaque_path :: bool

text \<open>
  \<open>url.pathname = p\<close> for the fixed paths of the handlers: they start with a slash and
  have no character that the path parser would change.
\<close>

definition set_pathname :: "url \<Rightarrow> jstr \<Rightarrow> url" where
  "set_pathname u p = (if opaque_path u then u else u\<lparr>pathname := p\<rparr>)"

definition is_special :: "url \<Rightarrow> bool" where
  "is_special u =
     (protocol u \<in> set (map lit [''http:'', ''https:'', ''ws:'', ''wss:'', ''ftp:'', ''file:'']))"

text \<open>UTF-8 bytes of a string of UTF-16 code units; a lone surrogate becomes U+FFFD.\<close>

definition utf8_of_code_point :: "nat \<Rightarrow> nat list" where
  "utf8_of_code_point n =
     (if n < 0x80 then [n]
      else if n < 0x800 then [0xC0 + n div 0x40, 0x80 + n mod 0x40]
      else if n < 0x10000 then [0xE0 + n div 0x1000, 0x80 + n div 0x40 mod 0x40, 0x80 + n mod 0x40]
      else [0xF0 + n div 0x40000, 0x80 + n div 0x1000 mod 0x40, 0x80 + n div 0x40 mod 0x40,
            0x80 + n mod 0x40])"

fun utf8 :: "jstr \<Rightarrow> nat list" where
  "utf8 [] = []"
| "utf8 [c] =
     (if 0xD800 \<le> unat c \<and> unat c < 0xE000 then utf8_of_code_point 0xFFFD
      else utf8_of_code_point (unat c))"
| "utf8 (c # d # cs) =
     (if 0xD800 \<le> unat c \<and> unat c < 0xDC00 \<and> 0xDC00 \<le> unat d \<and> unat d < 0xE000
      then utf8_of_code_point (0x10000 + (unat c - 0xD800) * 0x400 + (unat d - 0xDC00)) @ utf8 cs
      else if 0xD800 \<le> unat c \<and> unat c < 0xE000 then utf8_of_code_point 0xFFFD @ utf8 (d # cs)
      else utf8_of_code_point (unat c) @ utf8 (d # cs))"

definition hex_digit :: "nat \<Rightarrow> jchar" where
  "hex_digit n = lit ''0123456789ABCDEF'' ! n"

text \<open>The query percent-encode set; the apostrophe belongs to it for a special scheme.\<close>

definition query_encode_byte :: "bool \<Rightarrow> nat \<Rightarrow> jstr" where
  "query_encode_byte special b =
     (if b < 0x21 \<or> 0x7E < b \<or> b = 0x22 \<or> b = 0x23 \<or> b = 0x3C \<or> b = 0x3E \<or> (special \<and> b = 0x27)
      then [0x25, hex_digit (b div 16), hex_digit (b mod 16)]
      else [of_nat b])"

text \<open>
  \<open>url.search = v\<close>: a leading question mark is dropped, tabs and newlines are removed,
  and the rest is percent-encoded.
\<close>

definition set_search :: "url \<Rightarrow> jstr \<Rightarrow> url" where
  "set_search u v =
     (let input = (case v of [] \<Rightarrow> [] | c # cs \<Rightarrow> if c = 0x3F then cs else v);
          input = filter (\<lambda>c. c \<noteq> 0x09 \<and> c \<noteq> 0x0A \<and> c \<noteq> 0x0D) input;
          query = concat (map (query_encode_byte (is_special u)) (utf8 input))
      in u\<lparr>search := (if query = [] then [] else 0x3F # query)\<rparr>)"

section \<open>Requests, responses and effects\<close>

datatype http_method = GET | POST

datatype target = UrlObject url | UrlString jstr

text \<open>
  A header stands for the value the source computes for it: \<open>Authorization_Basic a\<close> is
  \<open>getBasicAuthHeader(a)\<close>, \<open>Authorization_Bearer k\<close> is \<open>Bearer\<close> followed by the
  string \<open>k\<close>.  (\<open>getBasicAuthHeader\<close> belongs to the \<open>util\<close> module, which is not
  among the sources: the header is kept as the call, whose result is not interpreted.)
\<close>

datatype header =
  Authorization_Basic js | Authorization_Bearer jstr | Content_Type_Json | HTTP_Referer js
  | Form_Headers

datatype payload = NoBody | JSON_stringify js | RawBody js | FormData "(jstr \<times> js) list"

record request =
  req_method :: http_method
  req_url :: target
  req_headers :: "header list"
  req_body :: payload
  req_timeout :: "nat option"

text \<open>
  A backend response: its status and the three readings of its body (\<open>text()\<close>,
  \<open>json()\<close>, which rejects when the body is not JSON, and \<open>buffer()\<close>).
  The outcome of a call of \<open>fetch\<close> is a parameter of the handler: the promise is
  fulfilled with a response, or it is rejected (\<open>NetworkError\<close>: the library could not
  build or send the request, or no answer came).
\<close>

record http_response =
  status :: nat
  statusText :: jstr
  body_text :: jstr
  body_json :: "js option"
  body_bytes :: "nat list"

datatype fetch_result = NetworkError | Response http_response

definition ok :: "http_response \<Rightarrow> bool" where
  "ok r = (200 \<le> status r \<and> status r \<le> 299)"

text \<open>
  The inbound request: the properties of its JSON body (the body parser yields an object),
  the result of \<open>new URL(request.body.url)\<close> (\<open>None\<close> when the constructor throws),
  the \<open>referer\<close> header and the path of an uploaded file.
\<close>

record inbound =
  body :: "(jstr \<times> js) list"
  parsed_url :: "url option"
  referer :: js
  upload :: "jstr option"

datatype log_item = LStr string | LVal js | LExn exn

text \<open>
  What a handler does, in order: calls of \<open>fetch\<close>, waits, console output, file removal.

  Modelled from the spec: \<open>delay\<close> of the \<open>util\<close> module is not among the sources;
  the spec describes \<open>delay(n)\<close> as a wait of \<open>n\<close> time units, and a run records the
  call as \<open>Delay n\<close>.
\<close>

datatype event = Fetch request | Delay nat | Log "log_item list" | RemoveFile jstr

text \<open>
  The call that answers the inbound request: \<open>sendStatus(n)\<close>, \<open>send(v)\<close> and
  \<open>json(v)\<close> under the status set before (200 by default), and \<open>send\<close> of a buffer or
  of its base64 text.  \<open>SendCode n\<close> is \<open>send(v)\<close> for a number \<open>v\<close>, which the
  web framework takes as the status \<open>n\<close> of the answer and not as its body.  \<open>NoReply\<close> is
  the run of a handler that throws outside of its \<open>try\<close> block: the promise of the
  handler is rejected and no call answers the request.
\<close>

datatype reply =
  SendStatus nat | Send nat js | SendJson nat js | SendBase64 nat "nat list" | SendBuffer nat "nat list"
  | SendCode nat | NoReply

type_synonym 'a act = "event list \<times> (exn + 'a)"

definition ret :: "'a \<Rightarrow> 'a act" where
  "ret v = ([], Inr v)"

definition throw_exn :: "exn \<Rightarrow> 'a act" where
  "throw_exn e = ([], Inl e)"

definition of_result :: "exn + 'a \<Rightarrow> 'a act" where
  "of_result r = ([], r)"

definition emit :: "event \<Rightarrow> unit act" where
  "emit ev = ([ev], Inr ())"

definition bindA :: "'a act \<Rightarrow> ('a \<Rightarrow> 'b act) \<Rightarrow> 'b act" where
  "bindA m f =
     (case m of
        (t, Inl e) \<Rightarrow> (t, Inl e)
      | (t, Inr v) \<Rightarrow> (case f v of (t', r) \<Rightarrow> (t @ t', r)))"

definition fetch :: "request \<Rightarrow> fetch_result \<Rightarrow> http_response act" where
  "fetch rq res = ([Fetch rq], case res of NetworkError \<Rightarrow> Inl FetchError | Response r \<Rightarrow> Inr r)"

definition json_of :: "http_response \<Rightarrow> js act" where
  "json_of r = (case body_json r of None \<Rightarrow> throw_exn SyntaxError | Some d \<Rightarrow> ret d)"

text \<open>\<open>request.body.k\<close>\<close>

definition field :: "inbound \<Rightarrow> jstr \<Rightarrow> js" where
  "field req k = (case map_of (body req) k of Some v \<Rightarrow> v | None \<Rightarrow> Undefined)"

definition new_URL :: "inbound \<Rightarrow> url act" where
  "new_URL req = (case parsed_url req of None \<Rightarrow> throw_exn TypeError | Some u \<Rightarrow> ret u)"

fun get_path :: "js \<Rightarrow> jstr list \<Rightarrow> exn + js" where
  "get_path v [] = Inr v"
| "get_path v (k # ks) = (case get_prop v k of Inl e \<Rightarrow> Inl e | Inr w \<Rightarrow> get_path w ks)"

text \<open>\<open>catch (error) { console.log(error); return response.sendStatus(500); }\<close>\<close>

definition catch_log_500 :: "reply act \<Rightarrow> event list \<times> reply" where
  "catch_log_500 m =
     (case m of (t, Inr r) \<Rightarrow> (t, r) | (t, Inl e) \<Rightarrow> (t @ [Log [LExn e]], SendStatus 500))"

text \<open>\<open>catch (error) { return response.sendStatus(500); }\<close>\<close>

definition catch_500 :: "reply act \<Rightarrow> event list \<times> reply" where
  "catch_500 m = (case m of (t, Inr r) \<Rightarrow> (t, r) | (t, Inl e) \<Rightarrow> (t, SendStatus 500))"

text \<open>\<open>catch (error) { console.error(..., error); response.status(500).send('Internal server error'); }\<close>\<close>

definition catch_internal :: "log_item list \<Rightarrow> reply act \<Rightarrow> event list \<times> reply" where
  "catch_internal prefix m =
     (case m of
        (t, Inr r) \<Rightarrow> (t, r)
      | (t, Inl e) \<Rightarrow> (t @ [Log (prefix @ [LExn e])], Send 500 (Str (lit ''Internal server error''))))"

text \<open>
  \<open>response.send(v)\<close> for a value that the backend chose.  Given a number, the web
  framework (express 4) assigns it to the status of the response and ends the response;
  the response object reduces the status by \<open>| 0\<close> and throws a \<open>RangeError\<close> unless
  it lies between 100 and 999.
\<close>

definition to_int32 :: "rat \<Rightarrow> int" where
  "to_int32 q =
     (let i = (if 0 \<le> q then \<lfloor>q\<rfloor> else \<lceil>q\<rceil>);
          m = i mod 4294967296
      in if m < 2147483648 then m else m - 4294967296)"

definition send :: "js \<Rightarrow> reply act" where
  "send v =
     (case v of
        Num q \<Rightarrow>
          (let code = to_int32 q in
           if 100 \<le> code \<and> code \<le> 999 then ret (SendCode (nat code)) else throw_exn RangeError)
      | _ \<Rightarrow> ret (Send 200 v))"

section \<open>Handlers of the image-generation web UI\<close>

text \<open>
  The block every such handler starts with: \<open>new URL(request.body.url)\<close>, the assignment
  to \<open>url.pathname\<close>, and a \<open>GET\<close> with the basic-auth header.
\<close>

definition webui_get :: "inbound \<Rightarrow> jstr \<Rightarrow> nat option \<Rightarrow> fetch_result \<Rightarrow> http_response act" where
  "webui_get req path tmo res =
     bindA (new_URL req) (\<lambda>url0.
     let url = set_pathname url0 path in
     (let auth = field req (lit ''auth'') in
     fetch \<lparr>req_method = GET, req_url = UrlObject url, req_headers = [Authorization_Basic auth],
            req_body = NoBody, req_timeout = tmo\<rparr> res))"

definition webui_error :: exn where
  "webui_error = Error ''SD WebUI returned an error.'' None"

definition sd_ping :: "inbound \<Rightarrow> fetch_result \<Rightarrow> event list \<times> reply" where
  "sd_ping req res =
     catch_log_500 (
       bindA (webui_get req (lit ''/sdapi/v1/options'') None res) (\<lambda>result.
       if \<not> ok result then throw_exn webui_error
       else ret (SendStatus 200)))"

definition names_of :: "js \<Rightarrow> exn + js list" where
  "names_of data = js_map (\<lambda>x. get_prop x (lit ''name'')) data"

definition getUpscalerModels :: "inbound \<Rightarrow> fetch_result \<Rightarrow> js list act" where
  "getUpscalerModels req res =
     bindA (webui_get req (lit ''/sdapi/v1/upscalers'') None res) (\<lambda>result.
     if \<not> ok result then throw_exn webui_error
     else bindA (json_of result) (\<lambda>data. of_result (names_of data)))"

definition getLatentUpscalers :: "inbound \<Rightarrow> fetch_result \<Rightarrow> js list act" where
  "getLatentUpscalers req res =
     bindA (webui_get req (lit ''/sdapi/v1/latent-upscale-modes'') None res) (\<lambda>result.
     if \<not> ok result then throw_exn webui_error
     else bindA (json_of result) (\<lambda>data. of_result (names_of data)))"

text \<open>
  \<open>Promise.all\<close> of the two calls: both requests are issued, and when both calls fail
  the error of the one that settles first is caught (\<open>latent_first\<close>).
\<close>

definition sd_upscalers :: "inbound \<Rightarrow> fetch_result \<Rightarrow> fetch_result \<Rightarrow> bool \<Rightarrow> event list \<times> reply" where
  "sd_upscalers req res1 res2 latent_first =
     (case getUpscalerModels req res1 of (t1, r1) \<Rightarrow>
      case getLatentUpscalers req res2 of (t2, r2) \<Rightarrow>
      catch_log_500 (
        bindA (t1 @ t2,
               case r1 of
                 Inr upscalers \<Rightarrow> (case r2 of Inr latent \<Rightarrow> Inr (upscalers, latent) | Inl e \<Rightarrow> Inl e)
               | Inl e1 \<Rightarrow> (case r2 of Inr latent \<Rightarrow> Inl e1
                            | Inl e2 \<Rightarrow> Inl (if latent_first then e2 else e1)))
          (\<lambda>(upscalers, latentUpscalers).
             ret (Send 200 (Arr (splice_insert 1 upscalers latentUpscalers))))))"

definition sd_samplers :: "inbound \<Rightarrow> fetch_result \<Rightarrow> event list \<times> reply" where
  "sd_samplers req res =
     catch_log_500 (
       bindA (webui_get req (lit ''/sdapi/v1/samplers'') None res) (\<lambda>result.
       if \<not> ok result then throw_exn webui_error
       else bindA (json_of result) (\<lambda>data.
            bindA (of_result (names_of data)) (\<lambda>names. ret (Send 200 (Arr names))))))"

definition model_entry :: "js \<Rightarrow> exn + js" where
  "model_entry x =
     (case get_prop x (lit ''title'') of
        Inl e \<Rightarrow> Inl e
      | Inr title \<Rightarrow> Inr (Obj [(lit ''value'', title), (lit ''text'', title)]))"

definition sd_models :: "inbound \<Rightarrow> fetch_result \<Rightarrow> event list \<times> reply" where
  "sd_models req res =
     catch_log_500 (
       bindA (webui_get req (lit ''/sdapi/v1/sd-models'') None res) (\<lambda>result.
       if \<not> ok result then throw_exn webui_error
       else bindA (json_of result) (\<lambda>data.
            bindA (of_result (js_map model_entry data)) (\<lambda>models. ret (Send 200 (Arr models))))))"

definition sd_get_model :: "inbound \<Rightarrow> fetch_result \<Rightarrow> event list \<times> reply" where
  "sd_get_model req res =
     catch_log_500 (
       bindA (webui_get req (lit ''/sdapi/v1/options'') None res) (\<lambda>result.
       bindA (json_of result) (\<lambda>data.
       bindA (of_result (get_prop data (lit ''sd_model_checkpoint''))) (\<lambda>v. send v))))"

definition MAX_ATTEMPTS :: nat where
  "MAX_ATTEMPTS = 10"

definition CHECK_INTERVAL :: nat where
  "CHECK_INTERVAL = 2000"

definition getProgress :: "inbound \<Rightarrow> fetch_result \<Rightarrow> js act" where
  "getProgress req res =
     bindA (webui_get req (lit ''/sdapi/v1/progress'') (Some 0) res) (\<lambda>result. json_of result)"

text \<open>
  One round of the loop body: \<open>Some ()\<close> is \<open>break\<close>.  The message of the round is a
  template, which converts \<open>progress\<close> and \<open>jobCount\<close> to strings.
\<close>

definition check_progress :: "runtime \<Rightarrow> inbound \<Rightarrow> fetch_result \<Rightarrow> unit option act" where
  "check_progress rt req res =
     bindA (getProgress req res) (\<lambda>progressState.
     bindA (of_result (get_prop progressState (lit ''progress''))) (\<lambda>progress.
     bindA (of_result (get_path progressState [lit ''state'', lit ''job_count''])) (\<lambda>jobCount.
     bindA (of_result (loose_eq_zero rt progress)) (\<lambda>zero.
     if zero \<and> jobCount = Num 0 then ret (Some ())
     else bindA (of_result (to_string rt progress)) (\<lambda>p.
          bindA (of_result (to_string rt jobCount)) (\<lambda>j.
          bindA (emit (Log [LVal (Str (lit ''Waiting for SD WebUI to finish model loading... Progress: ''
                                       @ p @ lit ''; Job count: '' @ j))])) (\<lambda>_.
          bindA (emit (Delay CHECK_INTERVAL)) (\<lambda>_. ret None))))))))"

function wait_loop :: "runtime \<Rightarrow> inbound \<Rightarrow> (nat \<Rightarrow> fetch_result) \<Rightarrow> nat \<Rightarrow> unit act" where
  "wait_loop rt req progress attempt =
     (if attempt < MAX_ATTEMPTS then
        (case check_progress rt req (progress attempt) of
           (t, Inl e) \<Rightarrow> (t, Inl e)
         | (t, Inr (Some u)) \<Rightarrow> (t, Inr ())
         | (t, Inr None) \<Rightarrow> bindA (t, Inr ()) (\<lambda>_. wait_loop rt req progress (Suc attempt)))
      else ret ())"
  by pat_completeness auto
termination
  by (relation "measure (\<lambda>(rt, req, progress, attempt). MAX_ATTEMPTS - attempt)") auto

definition sd_set_model :: "runtime \<Rightarrow> inbound \<Rightarrow> fetch_result \<Rightarrow> (nat \<Rightarrow> fetch_result) \<Rightarrow> event list \<times> reply" where
  "sd_set_model rt req res progress =
     catch_log_500 (
       bindA (new_URL req) (\<lambda>url0.
       let url = set_pathname url0 (lit ''/sdapi/v1/options'') in
       (let model = field req (lit ''model'') in
       let options = Obj [(lit ''sd_model_checkpoint'', model)] in
       (let auth = field req (lit ''auth'') in
       bindA (fetch \<lparr>req_method = POST, req_url = UrlObject url,
                     req_headers = [Content_Type_Json, Authorization_Basic auth],
                     req_body = JSON_stringify options, req_timeout = Some 0\<rparr> res) (\<lambda>result.
       if \<not> ok result then throw_exn webui_error
       else bindA (wait_loop rt req progress 0) (\<lambda>_. ret (SendStatus 200)))))))"

definition sd_generate :: "inbound \<Rightarrow> fetch_result \<Rightarrow> event list \<times> reply" where
  "sd_generate req res =
     catch_log_500 (
       bindA (emit (Log [LStr ''SD WebUI request:'', LVal (Obj (body req))])) (\<lambda>_.
       bindA (new_URL req) (\<lambda>url0.
       let url = set_pathname url0 (lit ''/sdapi/v1/txt2img'') in
       (let auth = field req (lit ''auth'') in
       bindA (fetch \<lparr>req_method = POST, req_url = UrlObject url,
                     req_headers = [Content_Type_Json, Authorization_Basic auth],
                     req_body = JSON_stringify (Obj (body req)), req_timeout = Some 0\<rparr> res) (\<lambda>result.
       if \<not> ok result
       then throw_exn (Error ''SD WebUI returned an error.'' (Some (body_text result)))
       else bindA (json_of result) (\<lambda>data. send data))))))"

definition sdnext_latentUpscalers :: "js list" where
  "sdnext_latentUpscalers =
     map (\<lambda>s. Str (lit s)) [''Latent'', ''Latent (antialiased)'', ''Latent (bicubic)'',
       ''Latent (bicubic antialiased)'', ''Latent (nearest)'', ''Latent (nearest-exact)'']"

definition sdnext_upscalers :: "inbound \<Rightarrow> fetch_result \<Rightarrow> event list \<times> reply" where
  "sdnext_upscalers req res =
     catch_log_500 (
       bindA (webui_get req (lit ''/sdapi/v1/upscalers'') None res) (\<lambda>result.
       if \<not> ok result then throw_exn webui_error
       else bindA (json_of result) (\<lambda>data.
            bindA (of_result (names_of data)) (\<lambda>names.
            ret (Send 200 (Arr (splice_insert 1 names sdnext_latentUpscalers)))))))"

section \<open>Prompt expansion\<close>

definition splitStrings :: "jstr list" where
  "splitStrings = [lit '', extremely'', lit '', intricate,'']"

text \<open>The eleven code units of \<open>dangerousPatterns\<close>; five of them are not ASCII.\<close>

definition dangerousPatterns :: jstr where
  "dangerousPatterns = [0x5B, 0x5D, 0x3010, 0x3011, 0x28, 0x29, 0xFF08, 0xFF09, 0x7C, 0x3A, 0xFF1A]"

text \<open>
  For each code unit \<open>p\<close> of the pattern, \<open>x.replace(new RegExp("\\" + p, 'g'), '')\<close>;
  the escaped \<open>p\<close> matches itself for the code units above.  A value without a
  \<open>replace\<close> method throws.
\<close>

fun removePattern :: "js \<Rightarrow> jstr \<Rightarrow> exn + js" where
  "removePattern x [] = Inr x"
| "removePattern x (p # ps) =
     (case x of Str s \<Rightarrow> removePattern (Str (filter (\<lambda>c. c \<noteq> p) s)) ps | _ \<Rightarrow> Inl TypeError)"

text \<open>
  The text-generation pipeline of \<open>transformers.mjs\<close>: the import or \<open>getPipeline\<close>
  may fail, and a call of the pipe returns a value or throws (\<open>None\<close>).
\<close>

datatype pipeline = ImportFails | GetPipelineFails | Pipe "jstr \<Rightarrow> js option"

definition run_pipeline :: "pipeline \<Rightarrow> jstr \<Rightarrow> exn + js" where
  "run_pipeline pl prompt =
     (case pl of
        ImportFails \<Rightarrow> Inl (Error ''import failed'' None)
      | GetPipelineFails \<Rightarrow> Inl (Error ''getPipeline failed'' None)
      | Pipe pipe \<Rightarrow> (case pipe prompt of None \<Rightarrow> Inl (Error ''pipe failed'' None) | Some r \<Rightarrow> Inr r))"

text \<open>
  \<open>second\<close> is the outcome of \<open>Math.floor(Math.random() * splitStrings.length)\<close>.
  The statement \<open>let prompt = safeStr(originalPrompt) + splitString\<close> stands before the
  \<open>try\<close> block: when it throws, nothing catches the error.
\<close>

definition sd_expand :: "runtime \<Rightarrow> inbound \<Rightarrow> bool \<Rightarrow> pipeline \<Rightarrow> event list \<times> reply" where
  "sd_expand rt req second pl =
     (let originalPrompt = field req (lit ''prompt'') in
      if \<not> truthy originalPrompt
      then ([Log [LStr ''No prompt provided for SD expansion.'']],
            Send 200 (Obj [(lit ''prompt'', Str [])]))
      else
        let splitString = splitStrings ! (if second then 1 else 0) in
        case safeStr rt originalPrompt of
          Inl e \<Rightarrow> ([Log [LStr ''Refine prompt input:'', LVal originalPrompt]], NoReply)
        | Inr safe \<Rightarrow>
            let prompt = safe @ splitString
            in case
                 bindA (emit (Log [LStr ''Refine prompt input:'', LVal originalPrompt])) (\<lambda>_.
                 bindA (of_result (run_pipeline pl prompt)) (\<lambda>result.
                 bindA (of_result (get_path result [lit ''0'', lit ''generated_text''])) (\<lambda>newText.
                 bindA (of_result (removePattern newText dangerousPatterns)) (\<lambda>cleaned.
                 bindA (of_result (safeStr rt cleaned)) (\<lambda>newPrompt.
                 bindA (emit (Log [LStr ''Refine prompt output:'', LVal (Str newPrompt)])) (\<lambda>_.
                 ret (Send 200 (Obj [(lit ''prompt'', Str newPrompt)]))))))))
               of (t, Inr r) \<Rightarrow> (t, r)
                | (t, Inl e) \<Rightarrow>
                    (t @ [Log [LStr ''Failed to load transformers.js pipeline.'']],
                     Send 200 (Obj [(lit ''prompt'', originalPrompt)])))"

section \<open>Handlers of the node-graph server\<close>

definition comfy_error :: exn where
  "comfy_error = Error ''ComfyUI returned an error.'' None"

definition plain_get :: "url \<Rightarrow> fetch_result \<Rightarrow> http_response act" where
  "plain_get u res =
     fetch \<lparr>req_method = GET, req_url = UrlObject u, req_headers = [], req_body = NoBody,
            req_timeout = None\<rparr> res"

definition comfy_get :: "inbound \<Rightarrow> jstr \<Rightarrow> fetch_result \<Rightarrow> http_response act" where
  "comfy_get req path res =
     bindA (new_URL req) (\<lambda>url0.
     let url = set_pathname url0 path in
     bindA (plain_get url res) (\<lambda>result.
     if \<not> ok result then throw_exn comfy_error else ret result))"

definition comfy_ping :: "inbound \<Rightarrow> fetch_result \<Rightarrow> event list \<times> reply" where
  "comfy_ping req res =
     catch_log_500 (bindA (comfy_get req (lit ''/system_stats'') res) (\<lambda>result. ret (SendStatus 200)))"

definition comfy_object_info :: "inbound \<Rightarrow> jstr list \<Rightarrow> fetch_result \<Rightarrow> js act" where
  "comfy_object_info req path res =
     bindA (comfy_get req (lit ''/object_info'') res) (\<lambda>result.
     bindA (json_of result) (\<lambda>data. of_result (get_path data path)))"

definition comfy_samplers :: "inbound \<Rightarrow> fetch_result \<Rightarrow> event list \<times> reply" where
  "comfy_samplers req res =
     catch_log_500 (
       bindA (comfy_object_info req
                [lit ''KSampler'', lit ''input'', lit ''required'', lit ''sampler_name'', lit ''0''] res)
         (\<lambda>v. send v))"

definition comfy_models :: "inbound \<Rightarrow> fetch_result \<Rightarrow> event list \<times> reply" where
  "comfy_models req res =
     catch_log_500 (
       bindA (comfy_object_info req
                [lit ''CheckpointLoaderSimple'', lit ''input'', lit ''required'', lit ''ckpt_name'',
                 lit ''0''] res) (\<lambda>names.
       bindA (of_result (js_map (\<lambda>it. Inr (Obj [(lit ''value'', it), (lit ''text'', it)])) names))
         (\<lambda>models. ret (Send 200 (Arr models)))))"

definition comfy_schedulers :: "inbound \<Rightarrow> fetch_result \<Rightarrow> event list \<times> reply" where
  "comfy_schedulers req res =
     catch_log_500 (
       bindA (comfy_object_info req
                [lit ''KSampler'', lit ''input'', lit ''required'', lit ''scheduler'', lit ''0''] res)
         (\<lambda>v. send v))"

definition comfy_vaes :: "inbound \<Rightarrow> fetch_result \<Rightarrow> event list \<times> reply" where
  "comfy_vaes req res =
     catch_log_500 (
       bindA (comfy_object_info req
                [lit ''VAELoader'', lit ''input'', lit ''required'', lit ''vae_name'', lit ''0''] res)
         (\<lambda>v. send v))"

subsection \<open>The polling generation flow\<close>

text \<open>Submission; the result is the job id and the history URL built after it.\<close>

definition submit_job :: "inbound \<Rightarrow> fetch_result \<Rightarrow> (js \<times> url) act" where
  "submit_job req submit =
     bindA (new_URL req) (\<lambda>url0.
     let url = set_pathname url0 (lit ''/prompt'') in
     (let prompt = field req (lit ''prompt'') in
     bindA (fetch \<lparr>req_method = POST, req_url = UrlObject url, req_headers = [],
                   req_body = RawBody prompt, req_timeout = None\<rparr> submit) (\<lambda>promptResult.
     if \<not> ok promptResult then throw_exn comfy_error
     else bindA (json_of promptResult) (\<lambda>data.
          bindA (of_result (get_prop data (lit ''prompt_id''))) (\<lambda>prompt_id.
          bindA (new_URL req) (\<lambda>historyUrl0.
          ret (prompt_id, set_pathname historyUrl0 (lit ''/history''))))))))"

text \<open>One round of the \<open>while (true)\<close> loop, up to \<open>item = history[id]\<close>.\<close>

definition history_poll :: "runtime \<Rightarrow> url \<Rightarrow> js \<Rightarrow> fetch_result \<Rightarrow> looked_up act" where
  "history_poll rt historyUrl prompt_id res =
     bindA (plain_get historyUrl res) (\<lambda>result.
     if \<not> ok result then throw_exn comfy_error
     else bindA (json_of result) (\<lambda>history.
          bindA (of_result (to_string rt prompt_id)) (\<lambda>key.
          of_result (get_computed rt history key))))"

text \<open>
  The loop has no bound: it is a partial function, and \<open>None\<close> is the run that never
  leaves it.  \<open>history n\<close> is the answer to the poll number \<open>n\<close>, \<open>acc\<close> the events so
  far.
\<close>

partial_function (option) poll_loop ::
  "runtime \<Rightarrow> url \<Rightarrow> js \<Rightarrow> (nat \<Rightarrow> fetch_result) \<Rightarrow> nat \<Rightarrow> event list
   \<Rightarrow> looked_up act option" where
  "poll_loop rt historyUrl prompt_id history n acc =
     (case history_poll rt historyUrl prompt_id (history n) of
        (t, Inl e) \<Rightarrow> Some (acc @ t, Inl e)
      | (t, Inr item) \<Rightarrow>
          if truthy_item item then Some (acc @ t, Inr item)
          else poll_loop rt historyUrl prompt_id history (Suc n) (acc @ t @ [Delay 100]))"

definition fetch_asset :: "runtime \<Rightarrow> inbound \<Rightarrow> looked_up \<Rightarrow> fetch_result \<Rightarrow> reply act" where
  "fetch_asset rt req item asset =
     bindA (of_result (outputs_of item)) (\<lambda>outputs.
     bindA (of_result (object_keys outputs)) (\<lambda>keys.
     bindA (of_result (map_exn (\<lambda>it. get_path outputs [it, lit ''images'']) keys)) (\<lambda>lists.
     let imgInfo = (case flat lists of [] \<Rightarrow> Undefined | v # _ \<Rightarrow> v) in
     bindA (new_URL req) (\<lambda>imgUrl0.
     let imgUrl = set_pathname imgUrl0 (lit ''/view'') in
     bindA (of_result (get_prop imgInfo (lit ''filename''))) (\<lambda>filename.
     bindA (of_result (to_string rt filename)) (\<lambda>filename.
     bindA (of_result (get_prop imgInfo (lit ''subfolder''))) (\<lambda>subfolder.
     bindA (of_result (to_string rt subfolder)) (\<lambda>subfolder.
     bindA (of_result (get_prop imgInfo (lit ''type''))) (\<lambda>type.
     bindA (of_result (to_string rt type)) (\<lambda>type.
     let imgUrl = set_search imgUrl
           (lit ''?filename='' @ filename @ lit ''&subfolder='' @ subfolder @ lit ''&type='' @ type) in
     bindA (plain_get imgUrl asset) (\<lambda>imgResponse.
     if \<not> ok imgResponse then throw_exn comfy_error
     else ret (SendBase64 200 (body_bytes imgResponse)))))))))))))"

definition comfy_generate ::
  "runtime \<Rightarrow> inbound \<Rightarrow> fetch_result \<Rightarrow> (nat \<Rightarrow> fetch_result) \<Rightarrow> fetch_result
   \<Rightarrow> (event list \<times> reply) option" where
  "comfy_generate rt req submit history asset =
     (case submit_job req submit of
        (t, Inl e) \<Rightarrow> Some (t, SendStatus 500)
      | (t, Inr (prompt_id, historyUrl)) \<Rightarrow>
          map_option (\<lambda>polled. catch_500 (bindA polled (\<lambda>item. fetch_asset rt req item asset)))
            (poll_loop rt historyUrl prompt_id history 0 t))"

section \<open>Handlers of the hosted multimodal provider\<close>

text \<open>
  \<open>readSecret\<close> of the secret store is a parameter; it yields a value of the secrets
  file or \<open>undefined\<close>, or throws.
\<close>

datatype secret_key = OPENAI | OPENROUTER

definition nullish :: "js \<Rightarrow> bool" where
  "nullish v = (v = Undefined \<or> v = Null)"

text \<open>\<open>data?.choices[0]?.message?.content\<close>\<close>

definition caption_of :: "js \<Rightarrow> exn + js" where
  "caption_of data =
     (if nullish data then Inr Undefined
      else case get_path data [lit ''choices'', lit ''0''] of
             Inl e \<Rightarrow> Inl e
           | Inr first \<Rightarrow>
               if nullish first then Inr Undefined
               else (case get_prop first (lit ''message'') of
                       Inl e \<Rightarrow> Inl e
                     | Inr message \<Rightarrow>
                         if nullish message then Inr Undefined
                         else get_prop message (lit ''content'')))"

text \<open>
  The header \<open>Authorization: `Bearer ${key}`\<close>: the template converts the key to a
  string.
\<close>

definition bearer :: "runtime \<Rightarrow> js \<Rightarrow> header act" where
  "bearer rt key = bindA (of_result (to_string rt key)) (\<lambda>k. ret (Authorization_Bearer k))"

text \<open>The branch \<open>if (!result.ok)\<close> of the four handlers.\<close>

definition forward_failure :: "string \<Rightarrow> http_response \<Rightarrow> reply act" where
  "forward_failure message result =
     (let text = body_text result in
      bindA (emit (Log [LStr message, LVal (Str (statusText result)), LVal (Str text)])) (\<lambda>_.
      ret (Send 500 (Str text))))"

definition openai_caption_image ::
  "runtime \<Rightarrow> (secret_key \<Rightarrow> exn + js) \<Rightarrow> inbound \<Rightarrow> fetch_result \<Rightarrow> event list \<times> reply" where
  "openai_caption_image rt readSecret req res =
     catch_internal [] (
       (let api = field req (lit ''api'') in
       bindA (of_result (if api = Str (lit ''openai'') then readSecret OPENAI else Inr (Str []))) (\<lambda>key.
       bindA (of_result (if api = Str (lit ''openrouter'') then readSecret OPENROUTER else Inr key)) (\<lambda>key.
       if \<not> truthy key
       then bindA (emit (Log [LStr ''No key found for API'', LVal api])) (\<lambda>_. ret (SendStatus 401))
       else
       (let model = field req (lit ''model'') in
       (let prompt = field req (lit ''prompt'') in
       (let image = field req (lit ''image'') in
       let payload = Obj [
             (lit ''model'', model),
             (lit ''messages'', Arr [Obj [
                (lit ''role'', Str (lit ''user'')),
                (lit ''content'', Arr [
                   Obj [(lit ''type'', Str (lit ''text'')), (lit ''text'', prompt)],
                   Obj [(lit ''type'', Str (lit ''image_url'')),
                        (lit ''image_url'', Obj [(lit ''url'', image)])]])]]),
             (lit ''max_tokens'', Num 500)] in
       bindA (emit (Log [LStr ''Multimodal captioning request'', LVal payload])) (\<lambda>_.
       let apiUrl = [];
           headers = [];
           apiUrl = (if api = Str (lit ''openrouter'')
                     then lit ''https://openrouter.ai/api/v1/chat/completions'' else apiUrl);
           headers = (if api = Str (lit ''openrouter'') then [HTTP_Referer (referer req)] else headers);
           apiUrl = (if api = Str (lit ''openai'')
                     then lit ''https://api.openai.com/v1/chat/completions'' else apiUrl) in
       bindA (bearer rt key) (\<lambda>authorization.
       bindA (fetch \<lparr>req_method = POST, req_url = UrlString apiUrl,
                     req_headers = [Content_Type_Json, authorization] @ headers,
                     req_body = JSON_stringify payload, req_timeout = Some 0\<rparr> res) (\<lambda>result.
       if \<not> ok result then forward_failure ''Multimodal captioning request failed'' result
       else
       bindA (json_of result) (\<lambda>data.
       bindA (emit (Log [LStr ''Multimodal captioning response'', LVal data])) (\<lambda>_.
       bindA (of_result (caption_of data)) (\<lambda>caption.
       if \<not> truthy caption then ret (Send 500 (Str (lit ''No caption found'')))
       else ret (SendJson 200 (Obj [(lit ''caption'', caption)])))))))))))))))"

text \<open>
  \<open>formData.append(name, v)\<close> of the \<open>form-data\<close> package, for a value of the request
  body: a string, a number or a boolean is appended; an array is refused with the error
  \<open>Arrays are not supported.\<close>, and \<open>undefined\<close>, \<open>null\<close> or an object, from which
  the package reads the properties of a stream, make the call throw a \<open>TypeError\<close>.
\<close>

definition form_append :: "jstr \<Rightarrow> js \<Rightarrow> (jstr \<times> js) list \<Rightarrow> (jstr \<times> js) list act" where
  "form_append name v formData =
     (case v of
        Str s \<Rightarrow> ret (formData @ [(name, v)])
      | Num q \<Rightarrow> ret (formData @ [(name, v)])
      | Bool b \<Rightarrow> ret (formData @ [(name, v)])
      | Arr xs \<Rightarrow> throw_exn (Error ''Arrays are not supported.'' None)
      | _ \<Rightarrow> throw_exn TypeError)"

text \<open>\<open>rm_throws\<close>: whether \<open>fs.rmSync\<close> of the uploaded file throws.\<close>

definition openai_transcribe_audio ::
  "runtime \<Rightarrow> (secret_key \<Rightarrow> exn + js) \<Rightarrow> inbound \<Rightarrow> fetch_result \<Rightarrow> bool
   \<Rightarrow> event list \<times> reply" where
  "openai_transcribe_audio rt readSecret req res rm_throws =
     catch_internal [LStr ''OpenAI transcription failed''] (
       bindA (of_result (readSecret OPENAI)) (\<lambda>key.
       if \<not> truthy key
       then bindA (emit (Log [LStr ''No OpenAI key found''])) (\<lambda>_. ret (SendStatus 401))
       else case upload req of
         None \<Rightarrow> bindA (emit (Log [LStr ''No audio file found''])) (\<lambda>_. ret (SendStatus 400))
       | Some path \<Rightarrow>
       bindA (emit (Log [LStr ''Processing audio file'', LVal (Str path)])) (\<lambda>_.
       let formData = [(lit ''file'', Str path)] in
       (let model = field req (lit ''model'') in
       bindA (form_append (lit ''model'') model formData) (\<lambda>formData.
       (let language = field req (lit ''language'') in
       bindA (if truthy language then form_append (lit ''language'') language formData
              else ret formData) (\<lambda>formData.
       bindA (bearer rt key) (\<lambda>authorization.
       bindA (fetch \<lparr>req_method = POST,
                     req_url = UrlString (lit ''https://api.openai.com/v1/audio/transcriptions''),
                     req_headers = [authorization, Form_Headers],
                     req_body = FormData formData, req_timeout = None\<rparr> res) (\<lambda>result.
       if \<not> ok result then forward_failure ''OpenAI request failed'' result
       else
       bindA (emit (RemoveFile path)) (\<lambda>_.
       bindA (if rm_throws then throw_exn (Error ''rmSync failed'' None) else ret ()) (\<lambda>_.
       bindA (json_of result) (\<lambda>data.
       bindA (emit (Log [LStr ''OpenAI transcription response'', LVal data])) (\<lambda>_.
       ret (SendJson 200 data))))))))))))))"

text \<open>\<open>a ?? b\<close>\<close>

definition coalesce :: "js \<Rightarrow> js \<Rightarrow> js" where
  "coalesce a b = (if nullish a then b else a)"

definition openai_generate_voice ::
  "runtime \<Rightarrow> (secret_key \<Rightarrow> exn + js) \<Rightarrow> inbound \<Rightarrow> fetch_result \<Rightarrow> event list \<times> reply" where
  "openai_generate_voice rt readSecret req res =
     catch_internal [LStr ''OpenAI TTS generation failed''] (
       bindA (of_result (readSecret OPENAI)) (\<lambda>key.
       if \<not> truthy key
       then bindA (emit (Log [LStr ''No OpenAI key found''])) (\<lambda>_. ret (SendStatus 401))
       else
       (let input = field req (lit ''text'') in
       (let voice = field req (lit ''voice'') in
       (let speed = field req (lit ''speed'') in
       (let model = field req (lit ''model'') in
       let payload = Obj [
             (lit ''input'', input),
             (lit ''response_format'', Str (lit ''mp3'')),
             (lit ''voice'', coalesce voice (Str (lit ''alloy''))),
             (lit ''speed'', coalesce speed (Num 1)),
             (lit ''model'', coalesce model (Str (lit ''tts-1'')))] in
       bindA (bearer rt key) (\<lambda>authorization.
       bindA (fetch \<lparr>req_method = POST,
                     req_url = UrlString (lit ''https://api.openai.com/v1/audio/speech''),
                     req_headers = [Content_Type_Json, authorization],
                     req_body = JSON_stringify payload, req_timeout = None\<rparr> res) (\<lambda>result.
       if \<not> ok result then forward_failure ''OpenAI request failed'' result
       else ret (SendBuffer 200 (body_bytes result))))))))))"

definition openai_generate_image ::
  "runtime \<Rightarrow> (secret_key \<Rightarrow> exn + js) \<Rightarrow> inbound \<Rightarrow> fetch_result \<Rightarrow> event list \<times> reply" where
  "openai_generate_image rt readSecret req res =
     catch_internal [] (
       bindA (of_result (readSecret OPENAI)) (\<lambda>key.
       if \<not> truthy key
       then bindA (emit (Log [LStr ''No OpenAI key found''])) (\<lambda>_. ret (SendStatus 401))
       else
       bindA (emit (Log [LStr ''OpenAI request'', LVal (Obj (body req))])) (\<lambda>_.
       bindA (bearer rt key) (\<lambda>authorization.
       bindA (fetch \<lparr>req_method = POST,
                     req_url = UrlString (lit ''https://api.openai.com/v1/images/generations''),
                     req_headers = [Content_Type_Json, authorization],
                     req_body = JSON_stringify (Obj (body req)), req_timeout = Some 0\<rparr> res) (\<lambda>result.
       if \<not> ok result then forward_failure ''OpenAI request failed'' result
       else bindA (json_of result) (\<lambda>data. ret (SendJson 200 data)))))))"

section \<open>Observations of a run\<close>

text \<open>\<open>x.title\<close> of an entry that is neither \<open>null\<close> nor \<open>undefined\<close>.\<close>

definition title_of :: "js \<Rightarrow> js" where
  "title_of x = (case get_prop x (lit ''title'') of Inr t \<Rightarrow> t | Inl e \<Rightarrow> Undefined)"

text \<open>The targets of the outbound calls of a run, in order.\<close>

fun outbound_urls :: "event list \<Rightarrow> target list" where
  "outbound_urls [] = []"
| "outbound_urls (Fetch rq # t) = req_url rq # outbound_urls t"
| "outbound_urls (ev # t) = outbound_urls t"

text \<open>The \<open>GET\<close> calls and the waits of a run, in order.\<close>

fun polls :: "event list \<Rightarrow> request list" where
  "polls [] = []"
| "polls (Fetch rq # t) = (if req_method rq = GET then rq # polls t else polls t)"
| "polls (ev # t) = polls t"

fun delays :: "event list \<Rightarrow> nat list" where
  "delays [] = []"
| "delays (Delay n # t) = n # delays t"
| "delays (ev # t) = delays t"

text \<open>
  A value whose conversion to a string does not throw: a primitive value, an object
  without an own property \<open>toString\<close>, an array of such values.
\<close>

fun convertible :: "js \<Rightarrow> bool" where
  "convertible (Obj kvs) = (lit ''toString'' \<notin> set (map fst kvs))"
| "convertible (Arr xs) = list_all convertible xs"
| "convertible v = True"

text \<open>
  The string handed to the text-generation pipeline, when the sanitizer returns one.
\<close>

definition pipe_input :: "runtime \<Rightarrow> inbound \<Rightarrow> bool \<Rightarrow> jstr option" where
  "pipe_input rt req second =
     (case safeStr rt (field req (lit ''prompt'')) of
        Inl e \<Rightarrow> None
      | Inr safe \<Rightarrow> Some (safe @ splitStrings ! (if second then 1 else 0)))"




text \<open>Everything a run writes to the console, in order.\<close>

fun logged :: "event list \<Rightarrow> log_item list" where
  "logged [] = []"
| "logged (Log items # t) = items @ logged t"
| "logged (ev # t) = logged t"

text \<open>
  A history snapshot: a successful answer whose body maps job ids to history entries
  (objects).  \<open>has_job\<close>: the snapshot has the job id as a key.
\<close>

definition is_entry :: "js \<Rightarrow> bool" where
  "is_entry v = (case v of Obj kvs \<Rightarrow> True | _ \<Rightarrow> False)"

definition is_snapshot :: "fetch_result \<Rightarrow> bool" where
  "is_snapshot res =
     (case res of
        NetworkError \<Rightarrow> False
      | Response r \<Rightarrow>
          ok r \<and> (case body_json r of
                    Some (Obj kvs) \<Rightarrow> list_all (\<lambda>kv. is_entry (snd kv)) kvs
                  | _ \<Rightarrow> False))"

definition has_job :: "jstr \<Rightarrow> fetch_result \<Rightarrow> bool" where
  "has_job jid res =
     (case res of
        NetworkError \<Rightarrow> False
      | Response r \<Rightarrow>
          (case body_json r of Some (Obj kvs) \<Rightarrow> jid \<in> fst ` set kvs | _ \<Rightarrow> False))"

text \<open>A job id that is not the name of a member of \<open>Object.prototype\<close>.\<close>

definition plain_id :: "jstr \<Rightarrow> bool" where
  "plain_id jid = (jid \<notin> set object_prototype_members)"

text \<open>An answer with a status outside 200..299.\<close>

definition failed :: "fetch_result \<Rightarrow> bool" where
  "failed res = (case res of NetworkError \<Rightarrow> False | Response r \<Rightarrow> \<not> ok r)"

text \<open>The \<open>GET\<close> of the history endpoint, as an event.\<close>

definition history_get :: "url \<Rightarrow> event" where
  "history_get historyUrl =
     Fetch \<lparr>req_method = GET, req_url = UrlObject historyUrl, req_headers = [], req_body = NoBody,
            req_timeout = None\<rparr>"

section \<open>Concrete inputs\<close>

text \<open>
  Inputs at which the statements below are evaluated.  The example runtime converts
  natural numbers and one half to strings, reads the decimal numerals of natural numbers
  (every other string is taken as \<open>NaN\<close>) and knows a few members of the prototypes of
  arrays, strings and numbers, which is all these inputs need.
\<close>

definition example_runtime :: runtime where
  "example_runtime =
     \<lparr>NumberToString = (\<lambda>q. if q = 1 / 2 then lit ''0.5'' else dec (nat \<lfloor>q\<rfloor>)),
      StringToNumber = (\<lambda>s. map_option of_nat (array_index s)),
      PrototypeMember = (\<lambda>v k. case v of
         Arr xs \<Rightarrow> k \<in> set (map lit [''map'', ''join'', ''push'', ''slice'', ''flat''])
       | Str s \<Rightarrow> k \<in> set (map lit [''trim'', ''replace'', ''slice'', ''split''])
       | Num q \<Rightarrow> k \<in> set (map lit [''toFixed'', ''toPrecision'', ''toExponential''])
       | _ \<Rightarrow> False)\<rparr>"

definition example_url :: url where
  "example_url = \<lparr>protocol = lit ''http:'', username = [], password = [],
     hostname = lit ''localhost'', port = lit ''7860'', pathname = lit ''/'', search = [],
     hash = [], opaque_path = False\<rparr>"

definition example_request :: inbound where
  "example_request =
     \<lparr>body = [(lit ''url'', Str (lit ''http://localhost:7860'')),
              (lit ''auth'', Str (lit ''user:pass''))],
      parsed_url = Some example_url, referer = Undefined, upload = None\<rparr>"

definition not_found :: http_response where
  "not_found = \<lparr>status = 404, statusText = lit ''Not Found'',
     body_text = lit ''{\"detail\":\"Not Found\"}'',
     body_json = Some (Obj [(lit ''detail'', Str (lit ''Not Found''))]), body_bytes = []\<rparr>"

definition proxied_url :: url where
  "proxied_url = \<lparr>protocol = lit ''http:'', username = [], password = [],
     hostname = lit ''localhost'', port = lit ''7860'', pathname = lit ''/proxy/sd'',
     search = lit ''?token=abc'', hash = [], opaque_path = False\<rparr>"

definition proxied_request :: inbound where
  "proxied_request =
     \<lparr>body = [(lit ''url'', Str (lit ''http://localhost:7860/proxy/sd?token=abc''))],
      parsed_url = Some proxied_url, referer = Undefined, upload = None\<rparr>"

definition ok_response :: "js \<Rightarrow> http_response" where
  "ok_response d = \<lparr>status = 200, statusText = lit ''OK'', body_text = [], body_json = Some d,
     body_bytes = []\<rparr>"

definition upscalers_data :: js where
  "upscalers_data = Arr [Obj [(lit ''name'', Str (lit ''None''))], Obj [(lit ''name'', Str (lit ''Lanczos''))],
     Obj [(lit ''name'', Str (lit ''ESRGAN_4x''))]]"

definition latent_data :: js where
  "latent_data = Arr [Obj [(lit ''name'', Str (lit ''Latent''))], Obj [(lit ''name'', Str (lit ''Latent (nearest)''))]]"

definition models_data :: js where
  "models_data = Arr [Obj [(lit ''title'', Str (lit ''v1-5-pruned.ckpt [e1441589a6]'')), (lit ''model_name'', Str (lit ''v1-5-pruned''))],
     Obj [(lit ''title'', Str (lit ''anything-v3.safetensors'')), (lit ''model_name'', Str (lit ''anything-v3''))]]"

definition expand_request :: inbound where
  "expand_request = \<lparr>body = [(lit ''prompt'', Str (lit ''a cat [on] a mat''))], parsed_url = None,
     referer = Undefined, upload = None\<rparr>"

text \<open>The request body \<open>{"prompt": {"toString": 0}}\<close>.\<close>

definition toString_request :: inbound where
  "toString_request = \<lparr>body = [(lit ''prompt'', Obj [(lit ''toString'', Num 0)])],
     parsed_url = None, referer = Undefined, upload = None\<rparr>"

definition empty_request :: inbound where
  "empty_request = \<lparr>body = [], parsed_url = None, referer = Undefined, upload = None\<rparr>"

definition echo_pipe :: "jstr \<Rightarrow> js option" where
  "echo_pipe p = Some (Arr [Obj [(lit ''generated_text'', Str (p @ lit '' (detailed): fur.''))]])"

definition failing_pipe :: "jstr \<Rightarrow> js option" where
  "failing_pipe p = None"




text \<open>A progress poll whose job count is the object \<open>{"toString": 0}\<close>.\<close>

definition unconvertible_job_count :: "nat \<Rightarrow> fetch_result" where
  "unconvertible_job_count n =
     Response (ok_response (Obj [(lit ''progress'', Num (1 / 2)),
       (lit ''state'', Obj [(lit ''job_count'', Obj [(lit ''toString'', Num 0)])])]))"

text \<open>A progress poll whose progress is the object \<open>{"toString": 0}\<close>.\<close>

definition unconvertible_progress :: "nat \<Rightarrow> fetch_result" where
  "unconvertible_progress n =
     Response (ok_response (Obj [(lit ''progress'', Obj [(lit ''toString'', Num 0)]),
       (lit ''state'', Obj [(lit ''job_count'', Num 0)])]))"

definition example_secrets :: "secret_key \<Rightarrow> exn + js" where
  "example_secrets k = Inr (Str (lit ''sk-example''))"

definition rate_limited :: http_response where
  "rate_limited = \<lparr>status = 429, statusText = lit ''Too Many Requests'',
     body_text = lit ''{\"error\":{\"message\":\"Rate limit reached\"}}'',
     body_json = Some (Obj [(lit ''error'', Obj [(lit ''message'', Str (lit ''Rate limit reached''))])]),
     body_bytes = []\<rparr>"

definition caption_request :: inbound where
  "caption_request =
     \<lparr>body = [(lit ''url'', Str (lit ''http://localhost:7860'')), (lit ''api'', Str (lit ''openai'')), (lit ''model'', Str (lit ''gpt-4-vision-preview'')),
              (lit ''prompt'', Str (lit ''What is this?'')), (lit ''image'', Str (lit ''data:image/png;base64,AAAA''))],
      parsed_url = Some example_url, referer = Undefined, upload = Some (lit ''/tmp/upload.wav'')\<rparr>"

text \<open>
  The scenario of the polling flow: job id \<open>abc123\<close>, an empty history on the first two
  polls, and from the third poll on an entry with one output image under the node \<open>node\<close>.
\<close>

definition scenario_entry :: "jstr \<Rightarrow> js" where
  "scenario_entry node =
     Obj [(lit ''outputs'',
           Obj [(node, Obj [(lit ''images'',
                  Arr [Obj [(lit ''filename'', Str (lit ''x.png'')), (lit ''subfolder'', Str []),
                            (lit ''type'', Str (lit ''output''))]])])])]"

definition scenario_history :: "jstr \<Rightarrow> nat \<Rightarrow> fetch_result" where
  "scenario_history node n =
     Response (ok_response (if n < 2 then Obj [] else Obj [(lit ''abc123'', scenario_entry node)]))"

definition scenario_submit :: fetch_result where
  "scenario_submit = Response (ok_response (Obj [(lit ''prompt_id'', Str (lit ''abc123''))]))"

definition empty_history :: "nat \<Rightarrow> fetch_result" where
  "empty_history n = Response (ok_response (Obj []))"

text \<open>A submission answered with the job id \<open>constructor\<close>.\<close>

definition constructor_submit :: fetch_result where
  "constructor_submit = Response (ok_response (Obj [(lit ''prompt_id'', Str (lit ''constructor''))]))"

text \<open>A history endpoint that answers every poll with status 429.\<close>

definition failing_history :: "nat \<Rightarrow> fetch_result" where
  "failing_history n = Response rate_limited"

section \<open>Basic facts\<close>

declare wait_loop.simps [simp del]

lemma unat_lit_char: "unat (of_nat (of_char c) :: jchar) = of_char c"
proof -
  have "(of_char c :: nat) < 65536" using nat_of_char_less_256[of c] by linarith
  then have "(of_char c :: nat) mod 2 ^ LENGTH(16) = of_char c" by simp
  then show ?thesis by (simp only: unat_of_nat)
qed

lemma lit_inj: "lit a = lit b \<Longrightarrow> a = b"
proof (induction a arbitrary: b)
  case Nil
  then show ?case by (simp add: lit_def)
next
  case (Cons c cs)
  then obtain d ds where b: "b = d # ds" by (cases b) (auto simp: lit_def)
  from Cons.prems b have h: "(of_nat (of_char c) :: jchar) = of_nat (of_char d)" and t: "lit cs = lit ds"
    by (simp_all add: lit_def del: of_nat_of_char)
  from h have "unat (of_nat (of_char c) :: jchar) = unat (of_nat (of_char d) :: jchar)" by simp
  then have "(of_char c :: nat) = of_char d" by (simp only: unat_lit_char)
  then have "c = d" by simp
  with Cons.IH[OF t] b show ?case by simp
qed

lemma lit_eq_iff [simp]: "lit a = lit b \<longleftrightarrow> a = b"
  using lit_inj by auto

lemma lit_Nil [simp]: "lit [] = []"
  by (simp add: lit_def)

lemma lit_eq_Nil_iff [simp]: "lit a = [] \<longleftrightarrow> a = []" "[] = lit a \<longleftrightarrow> a = []"
  by (auto simp: lit_def)

lemmas act_defs = ret_def throw_exn_def of_result_def emit_def bindA_def fetch_def json_of_def
  new_URL_def field_def catch_log_500_def catch_500_def catch_internal_def send_def bearer_def

lemma outbound_urls_append [simp]: "outbound_urls (a @ b) = outbound_urls a @ outbound_urls b"
  by (induction a rule: outbound_urls.induct) simp_all

lemma webui_get_ok:
  "parsed_url req = Some u \<Longrightarrow>
   webui_get req path tmo (Response r) =
     ([Fetch \<lparr>req_method = GET, req_url = UrlObject (set_pathname u path),
               req_headers = [Authorization_Basic (field req (lit ''auth''))], req_body = NoBody,
               req_timeout = tmo\<rparr>], Inr r)"
  by (simp add: webui_get_def act_defs)

lemma polls_append [simp]: "polls (a @ b) = polls a @ polls b"
  by (induction a rule: polls.induct) simp_all

lemma delays_append [simp]: "delays (a @ b) = delays a @ delays b"
  by (induction a rule: delays.induct) simp_all

lemma logged_append [simp]: "logged (a @ b) = logged a @ logged b"
  by (induction a rule: logged.induct) simp_all

lemma bindA_InrE:
  assumes "bindA m f = (t, Inr v)"
  obtains t1 x t2 where "m = (t1, Inr x)" and "f x = (t2, Inr v)" and "t = t1 @ t2"
  using assms by (auto simp: bindA_def split: prod.splits sum.splits)

lemma lit_Cons: "lit (c # cs) = of_nat (of_char c) # lit cs"
  by (simp add: lit_def)



lemma convertible_to_string:
  "convertible v \<Longrightarrow> \<exists>s. to_string rt v = Inr s"
  "list_all convertible vs \<Longrightarrow> \<exists>ss. join_strings rt vs = Inr ss"
proof (induction rt v and rt vs rule: to_string_join_strings.induct)
  case (6 rt xs)
  then show ?case by auto
next
  case (9 rt v vs)
  then show ?case by (cases "v = Undefined \<or> v = Null") auto
qed simp_all

lemma not_convertible_to_string:
  "\<not> convertible v \<Longrightarrow> to_string rt v = Inl TypeError"
  "\<not> list_all convertible vs \<Longrightarrow> join_strings rt vs = Inl TypeError"
proof (induction rt v and rt vs rule: to_string_join_strings.induct)
  case (6 rt xs)
  then show ?case by auto
next
  case (9 rt v vs)
  show ?case
  proof (cases "convertible v")
    case True
    then have n: "\<not> list_all convertible vs" using 9(3) by simp
    obtain s where s: "to_string rt v = Inr s" using convertible_to_string(1)[OF True] by blast
    then have h: "(if v = Undefined \<or> v = Null then Inr [] else to_string rt v)
                    = Inr (if v = Undefined \<or> v = Null then [] else s)"
      by simp
    have "join_strings rt vs = Inl TypeError" using 9(2)[OF h n] .
    then show ?thesis using h by simp
  next
    case False
    then have "v \<noteq> Undefined" "v \<noteq> Null" by auto
    then show ?thesis using 9(1) False by simp
  qed
qed simp_all

lemma safeStr_Str: "safeStr rt (Str x) = Inr (strip_edges (trim ((collapse ^^ 16) x)))"
  by (simp add: safeStr_def)

lemma convertible_safeStr: "convertible v \<Longrightarrow> \<exists>s. safeStr rt v = Inr s"
  using convertible_to_string(1)[of v rt] by (auto simp: safeStr_def)
section \<open>The sanitizer\<close>

lemma lead_collapse:
  "length (takeWhile (\<lambda>d. d = 0x20) (collapse x)) = (length (takeWhile (\<lambda>d. d = 0x20) x) + 1) div 2"
  by (induction x rule: collapse.induct) auto

lemma longest_run_ge_lead:
  "length (takeWhile (\<lambda>d. d = 0x20) x) \<le> longest_run x"
  by (cases x) auto

lemma longest_run_collapse: "longest_run (collapse x) \<le> (longest_run x + 1) div 2"
proof (induction x rule: collapse.induct)
  case (1 a b cs)
  show ?case
  proof (cases "a = 0x20 \<and> b = 0x20")
    case True
    have "longest_run (collapse cs) \<le> (longest_run cs + 1) div 2"
      using 1(1) True by simp
    then show ?thesis using True by (simp add: lead_collapse) linarith
  next
    case False
    have IH: "longest_run (collapse (b # cs)) \<le> (longest_run (b # cs) + 1) div 2"
      using 1(2) False by simp
    show ?thesis
    proof (cases "a = 0x20")
      case True
      then have "b \<noteq> 0x20" using False by simp
      then show ?thesis using True IH by (simp add: lead_collapse) linarith
    next
      case F2: False
      then show ?thesis using False IH by simp
    qed
  qed
qed simp_all

lemma longest_run_funpow:
  "longest_run x \<le> 2 ^ k \<Longrightarrow> longest_run ((collapse ^^ k) x) \<le> 1"
proof (induction k arbitrary: x)
  case 0
  then show ?case by simp
next
  case (Suc k)
  have "longest_run (collapse x) \<le> (longest_run x + 1) div 2" by (rule longest_run_collapse)
  also have "\<dots> \<le> 2 ^ k" using Suc.prems by simp
  finally have "longest_run ((collapse ^^ k) (collapse x)) \<le> 1" by (rule Suc.IH)
  then show ?case by (simp add: funpow_swap1)
qed

lemma collapse_id: "longest_run x \<le> 1 \<Longrightarrow> collapse x = x"
  by (induction x rule: collapse.induct) (auto split: if_splits)

lemma collapse_funpow_id: "longest_run x \<le> 1 \<Longrightarrow> (collapse ^^ k) x = x"
  by (induction k) (simp_all add: collapse_id)

lemma longest_run_append_le: "longest_run ys \<le> longest_run (xs @ ys)"
  by (induction xs) auto

lemma takeWhile_append_le:
  "length (takeWhile P xs) \<le> length (takeWhile P (xs @ ys))"
  by (induction xs) auto

lemma longest_run_prefix_le: "longest_run xs \<le> longest_run (xs @ ys)"
proof (induction xs)
  case (Cons a xs)
  then show ?case using takeWhile_append_le[of "\<lambda>d. d = 0x20" xs ys] by auto
qed simp

lemma longest_run_dropWhile: "longest_run (dropWhile P x) \<le> longest_run x"
  using longest_run_append_le[of "dropWhile P x" "takeWhile P x"] by simp

lemma drop_end_prefix: "\<exists>ys. x = drop_end P x @ ys"
proof -
  have "x = rev (takeWhile P (rev x) @ dropWhile P (rev x))"
    by (simp only: takeWhile_dropWhile_id rev_rev_ident)
  also have "\<dots> = rev (dropWhile P (rev x)) @ rev (takeWhile P (rev x))"
    by (rule rev_append)
  finally have "x = drop_end P x @ rev (takeWhile P (rev x))"
    by (simp only: drop_end_def)
  then show ?thesis ..
qed

lemma longest_run_drop_end: "longest_run (drop_end P x) \<le> longest_run x"
  using drop_end_prefix[of x P] longest_run_prefix_le by metis

lemma drop_end_idem: "drop_end P (drop_end P x) = drop_end P x"
  by (simp add: drop_end_def)

lemma drop_end_Cons_keep: "\<not> P c \<Longrightarrow> drop_end P (c # xs) = c # drop_end P xs"
  by (simp add: drop_end_def dropWhile_append3 dropWhile_append) 

lemma drop_end_noop: "xs \<noteq> [] \<Longrightarrow> \<not> P (last xs) \<Longrightarrow> drop_end P xs = xs"
  by (cases xs rule: rev_cases) (simp_all add: drop_end_def)

lemma dropWhile_noop: "xs \<noteq> [] \<Longrightarrow> \<not> P (hd xs) \<Longrightarrow> dropWhile P xs = xs"
  by (cases xs) simp_all

lemma drop_end_last: "drop_end P xs \<noteq> [] \<Longrightarrow> \<not> P (last (drop_end P xs))"
  unfolding drop_end_def by (simp add: last_rev hd_dropWhile)

lemma drop_end_hd:
  "xs \<noteq> [] \<Longrightarrow> \<not> P (hd xs) \<Longrightarrow> drop_end P xs \<noteq> [] \<and> hd (drop_end P xs) = hd xs"
  by (cases xs) (simp_all add: drop_end_Cons_keep)

lemma both_ends_clean:
  assumes "y = drop_end P (dropWhile P x)" and "y \<noteq> []"
  shows "\<not> P (hd y) \<and> \<not> P (last y)"
proof -
  have ne: "dropWhile P x \<noteq> []"
  proof
    assume e: "dropWhile P x = []"
    have "y = []" unfolding assms(1) e by (simp add: drop_end_def)
    with assms(2) show False by simp
  qed
  then have "\<not> P (hd (dropWhile P x))" by (rule hd_dropWhile)
  with ne have "hd y = hd (dropWhile P x)" using drop_end_hd assms(1) by metis
  moreover have "\<not> P (last y)" using assms drop_end_last by metis
  ultimately show ?thesis using \<open>\<not> P (hd (dropWhile P x))\<close> by simp
qed

lemma both_ends_fixed:
  assumes "\<And>c. Q c \<Longrightarrow> P c"
  shows "drop_end Q (dropWhile Q (drop_end P (dropWhile P x))) = drop_end P (dropWhile P x)"
proof (cases "drop_end P (dropWhile P x) = []")
  case True
  show ?thesis unfolding True by (simp add: drop_end_def)
next
  case False
  then have c: "\<not> P (hd (drop_end P (dropWhile P x))) \<and> \<not> P (last (drop_end P (dropWhile P x)))"
    using both_ends_clean by blast
  then have "\<not> Q (hd (drop_end P (dropWhile P x)))" "\<not> Q (last (drop_end P (dropWhile P x)))"
    using assms by blast+
  then show ?thesis using False by (simp add: dropWhile_noop drop_end_noop)
qed

lemma safeStr_no_double:
  assumes "longest_run x \<le> 2 ^ 16"
  shows "longest_run (strip_edges (trim ((collapse ^^ 16) x))) \<le> 1"
proof -
  have "longest_run ((collapse ^^ 16) x) \<le> 1" using assms by (rule longest_run_funpow)
  then have "longest_run (trim ((collapse ^^ 16) x)) \<le> 1"
    unfolding trim_def using longest_run_drop_end longest_run_dropWhile le_trans by blast
  then show "longest_run (strip_edges (trim ((collapse ^^ 16) x))) \<le> 1"
    unfolding strip_edges_def using longest_run_drop_end longest_run_dropWhile le_trans by blast
qed

lemma safeStr_fixed:
  assumes "longest_run (strip_edges (trim ((collapse ^^ 16) x))) \<le> 1"
  shows "safeStr rt (Str (strip_edges (trim ((collapse ^^ 16) x))))
         = Inr (strip_edges (trim ((collapse ^^ 16) x)))"
proof -
  define y where "y = strip_edges (trim ((collapse ^^ 16) x))"
  have y: "y = strip_edges (trim ((collapse ^^ 16) x))" by (simp add: y_def)
  have 1: "(collapse ^^ 16) y = y" using assms collapse_funpow_id y_def by blast
  have 2: "trim y = y"
    unfolding y trim_def strip_edges_def by (rule both_ends_fixed) (simp add: is_edge_def)
  have 3: "strip_edges y = y"
    unfolding y strip_edges_def[of "trim _"] strip_edges_def[of "drop_end _ _"] by (rule both_ends_fixed) simp
  have "safeStr rt (Str y) = Inr (strip_edges (trim ((collapse ^^ 16) y)))" by (rule safeStr_Str)
  then show ?thesis using 1 2 3 y_def by simp
qed

lemma collapse_run:
  "c \<noteq> 0x20 \<Longrightarrow> collapse (replicate n 0x20 @ c # cs) = replicate ((n + 1) div 2) 0x20 @ collapse (c # cs)"
proof (induction n rule: less_induct)
  case (less n)
  show ?case
  proof (cases n)
    case 0
    then show ?thesis by simp
  next
    case (Suc m)
    show ?thesis
    proof (cases m)
      case 0
      then show ?thesis using Suc less.prems by simp
    next
      case (Suc k)
      have "k < n" using Suc \<open>n = Suc m\<close> by simp
      then have "collapse (replicate k 0x20 @ c # cs) = replicate ((k + 1) div 2) 0x20 @ collapse (c # cs)"
        using less by blast
      then show ?thesis using Suc \<open>n = Suc m\<close> by simp
    qed
  qed
qed

lemma collapse_word:
  assumes "a \<noteq> 0x20" "b \<noteq> 0x20"
  shows "collapse (a # replicate n 0x20 @ [b]) = a # replicate ((n + 1) div 2) 0x20 @ [b]"
proof -
  have "collapse (a # replicate n 0x20 @ [b]) = a # collapse (replicate n 0x20 @ [b])"
    using assms by (cases n) simp_all
  then show ?thesis using collapse_run[OF assms(2), of n "[]"] by simp
qed

lemma collapse_word_funpow:
  assumes "a \<noteq> 0x20" "b \<noteq> 0x20"
  shows "(collapse ^^ k) (a # replicate n 0x20 @ [b]) = a # replicate (((\<lambda>m. (m + 1) div 2) ^^ k) n) 0x20 @ [b]"
proof (induction k)
  case (Suc k)
  then show ?case using collapse_word[OF assms] by simp
qed simp

lemma funpow_16:
  "(f ^^ 16) x = f (f (f (f (f (f (f (f (f (f (f (f (f (f (f (f x)))))))))))))))"
  by (simp add: numeral_eq_Suc)

lemma halve16: "((\<lambda>m::nat. (m + 1) div 2) ^^ 16) 65537 = 2"
  unfolding funpow_16 by simp

lemma replicate_two: "replicate 2 x = [x, x]"
  by (simp add: numeral_2_eq_2)

lemma funpow_fixed: "f y = y \<Longrightarrow> (f ^^ k) y = y"
  by (induction k) simp_all

lemma funpow_16_unfold: "(f ^^ 16) x = (f ^^ 15) (f x)"
proof -
  have "(16::nat) = Suc 15" by simp
  then show ?thesis by (simp only: funpow_Suc_right o_apply)
qed

lemma pass16: "(collapse ^^ 16) (0x61 # replicate 65537 0x20 @ [0x62]) = [0x61, 0x20, 0x20, 0x62]"
proof -
  have "(collapse ^^ 16) (0x61 # replicate 65537 0x20 @ [0x62])
      = 0x61 # replicate (((\<lambda>m. (m + 1) div 2) ^^ 16) 65537) 0x20 @ [0x62]"
    by (rule collapse_word_funpow) simp_all
  then show ?thesis by (simp only: halve16 replicate_two append.simps)
qed

lemma first_application:
  "safeStr rt (Str (0x61 # replicate 65537 0x20 @ [0x62])) = Inr [0x61, 0x20, 0x20, 0x62]"
  unfolding safeStr_Str pass16
  by (simp add: trim_def strip_edges_def drop_end_def is_space_def is_edge_def)

lemma second_pass16: "(collapse ^^ 16) [0x61, 0x20, 0x20, 0x62] = [0x61, 0x20, 0x62]"
proof -
  have 1: "collapse [0x61, 0x20, 0x20, 0x62] = [0x61, 0x20, 0x62]" by simp
  have 2: "collapse [0x61, 0x20, 0x62] = [0x61, 0x20, 0x62]" by simp
  show ?thesis unfolding funpow_16_unfold 1 using 2 by (rule funpow_fixed)
qed

lemma second_application:
  "safeStr rt (Str [0x61, 0x20, 0x20, 0x62]) = Inr [0x61, 0x20, 0x62]"
  unfolding safeStr_Str second_pass16
  by (simp add: trim_def strip_edges_def drop_end_def is_space_def is_edge_def)

text \<open>
  C7 (as stated): the sanitizer is idempotent on every string.  It is not: sixteen passes
  leave two of the 65537 spaces between \<open>a\<close> and \<open>b\<close>, so that the sanitizer
  returns \<open>a\<close>, two spaces, \<open>b\<close>; applied to that string it removes one more space.
\<close>

theorem safeStr_not_idempotent:
  "safeStr example_runtime (Str (0x61 # replicate 65537 0x20 @ [0x62])) = Inr [0x61, 0x20, 0x20, 0x62]
   \<and> safeStr example_runtime (Str [0x61, 0x20, 0x20, 0x62]) = Inr [0x61, 0x20, 0x62]
   \<and> safeStr example_runtime (Str [0x61, 0x20, 0x20, 0x62])
       \<noteq> safeStr example_runtime (Str (0x61 # replicate 65537 0x20 @ [0x62]))"
  unfolding first_application second_application by simp

text \<open>
  C7 (amended): the sanitizer is idempotent on every string whose runs of consecutive
  spaces (U+0020) are at most 65536 long: it returns a string \<open>y\<close>, and applied to
  \<open>y\<close> it returns \<open>y\<close> again.
\<close>

theorem safeStr_idempotent_bounded_runs:
  "longest_run x \<le> 65536 \<Longrightarrow>
   \<exists>y. safeStr rt (Str x) = Inr y \<and> safeStr rt (Str y) = Inr y"
  using safeStr_fixed[OF safeStr_no_double, of x rt] safeStr_Str[of rt x] by simp

theorem safeStr_idempotent_bounded_runs_witness:
  "longest_run (lit ''  a   cat , on a  mat. '') \<le> 65536
   \<and> (\<exists>y. safeStr example_runtime (Str (lit ''  a   cat , on a  mat. '')) = Inr y
          \<and> safeStr example_runtime (Str y) = Inr y)"
proof -
  have h: "longest_run (lit ''  a   cat , on a  mat. '') \<le> 65536"
    by (simp add: lit_def)
  show ?thesis using h safeStr_idempotent_bounded_runs[OF h, of example_runtime] by simp
qed

section \<open>Outbound URLs\<close>

text \<open>
  C2 (as stated): the outbound URL is the base URL with its path replaced and its query
  discarded.  For the base \<open>http://localhost:7860/proxy/sd?token=abc\<close> the ping handler
  calls \<open>http://localhost:7860/sdapi/v1/options?token=abc\<close>: the query is kept.
\<close>

theorem ping_keeps_query:
  "outbound_urls (fst (sd_ping proxied_request (Response (ok_response Null))))
     \<noteq> [UrlObject (proxied_url\<lparr>pathname := lit ''/sdapi/v1/options'', search := []\<rparr>)]"
  by (simp add: sd_ping_def webui_get_def act_defs set_pathname_def proxied_request_def
        proxied_url_def ok_response_def ok_def)

text \<open>
  C2 (amended): for every base URL that parses and has a hierarchical path, the relay
  handlers call the base URL with only its path replaced by the fixed sub-path: scheme,
  credentials, host, port, query and fragment are those of the base URL.
\<close>

theorem relay_url_replaces_path_only:
  assumes "parsed_url req = Some u" and "\<not> opaque_path u"
  shows "outbound_urls (fst (sd_ping req res))
           = [UrlObject (u\<lparr>pathname := lit ''/sdapi/v1/options''\<rparr>)]
       \<and> outbound_urls (fst (sd_samplers req res))
           = [UrlObject (u\<lparr>pathname := lit ''/sdapi/v1/samplers''\<rparr>)]
       \<and> outbound_urls (fst (webui_get req sub tmo res)) = [UrlObject (u\<lparr>pathname := sub\<rparr>)]
       \<and> outbound_urls (fst (comfy_get req sub res)) = [UrlObject (u\<lparr>pathname := sub\<rparr>)]"
proof -
  have 1: "outbound_urls (fst (sd_ping req res))
           = [UrlObject (u\<lparr>pathname := lit ''/sdapi/v1/options''\<rparr>)]"
    using assms
    by (auto simp add: sd_ping_def webui_get_def act_defs set_pathname_def Let_def
          split: fetch_result.splits)
  have 2: "outbound_urls (fst (sd_samplers req res))
           = [UrlObject (u\<lparr>pathname := lit ''/sdapi/v1/samplers''\<rparr>)]"
    using assms
    by (auto simp add: sd_samplers_def webui_get_def act_defs set_pathname_def Let_def names_of_def
          split: fetch_result.splits option.splits sum.splits)
  have 3: "outbound_urls (fst (webui_get req sub tmo res)) = [UrlObject (u\<lparr>pathname := sub\<rparr>)]"
    using assms by (simp add: webui_get_def act_defs set_pathname_def Let_def)
  have 4: "outbound_urls (fst (comfy_get req sub res)) = [UrlObject (u\<lparr>pathname := sub\<rparr>)]"
    using assms
    by (auto simp add: comfy_get_def plain_get_def act_defs set_pathname_def Let_def
          split: fetch_result.splits)
  from 1 2 3 4 show ?thesis by simp
qed

theorem relay_url_replaces_path_only_witness:
  "parsed_url proxied_request = Some proxied_url \<and> \<not> opaque_path proxied_url
   \<and> outbound_urls (fst (sd_ping proxied_request NetworkError))
         = [UrlObject (proxied_url\<lparr>pathname := lit ''/sdapi/v1/options''\<rparr>)]
   \<and> outbound_urls (fst (sd_samplers proxied_request NetworkError))
         = [UrlObject (proxied_url\<lparr>pathname := lit ''/sdapi/v1/samplers''\<rparr>)]
   \<and> search (proxied_url\<lparr>pathname := lit ''/sdapi/v1/samplers''\<rparr>) = lit ''?token=abc''"
proof -
  have h1: "parsed_url proxied_request = Some proxied_url" by (simp add: proxied_request_def)
  have h2: "\<not> opaque_path proxied_url" by (simp add: proxied_url_def)
  have q: "search (proxied_url\<lparr>pathname := lit ''/sdapi/v1/samplers''\<rparr>) = lit ''?token=abc''"
    by (simp add: proxied_url_def)
  show ?thesis using h1 h2 q relay_url_replaces_path_only[OF h1 h2, of NetworkError] by simp
qed

section \<open>Backend failures\<close>

text \<open>
  C1: a backend answer outside 2xx makes the handler answer with a failure status.  The
  get-model handler does not look at the status: when the backend answers 404 with a JSON
  body, the handler calls \<open>response.send(undefined)\<close> under status 200.
\<close>

theorem get_model_ignores_backend_status:
  "\<not> ok not_found
   \<and> snd (sd_get_model example_request (Response not_found)) = Send 200 Undefined"
  by (simp add: sd_get_model_def webui_get_def act_defs example_request_def not_found_def ok_def)

text \<open>
  When the option is a number, \<open>response.send\<close> takes it as the status of the
  answer: 404 is sent as such, and 5, which is no status, makes the call throw, so that the
  handler answers 500.
\<close>

lemma get_model_sends_number:
  "snd (sd_get_model example_request
          (Response (ok_response (Obj [(lit ''sd_model_checkpoint'', Num 404)])))) = SendCode 404
   \<and> sd_get_model example_request
          (Response (ok_response (Obj [(lit ''sd_model_checkpoint'', Num 5)])))
       = ([Fetch \<lparr>req_method = GET,
                  req_url = UrlObject (set_pathname example_url (lit ''/sdapi/v1/options'')),
                  req_headers = [Authorization_Basic (Str (lit ''user:pass''))],
                  req_body = NoBody, req_timeout = None\<rparr>,
           Log [LExn RangeError]], SendStatus 500)"
  by (simp add: sd_get_model_def webui_get_def act_defs example_request_def ok_response_def
        to_int32_def)

section \<open>Facts about the polling loop\<close>

lemma map_of_entry:
  "list_all (\<lambda>kv. is_entry (snd kv)) kvs \<Longrightarrow> map_of kvs k = Some v \<Longrightarrow> truthy v"
  by (induction kvs) (auto simp: is_entry_def split: if_splits js.splits)

lemma history_poll_absent:
  assumes "is_snapshot res" and "\<not> has_job jid res" and "plain_id jid"
  shows "history_poll rt hurl (Str jid) res = ([history_get hurl], Inr (Own Undefined))"
proof -
  from assms(1) obtain r kvs where r: "res = Response r" "ok r" "body_json r = Some (Obj kvs)"
    by (auto simp: is_snapshot_def split: fetch_result.splits option.splits js.splits)
  with assms(2) have n: "jid \<notin> fst ` set kvs" by (simp add: has_job_def)
  then have "map_of kvs jid = None" by (simp add: map_of_eq_None_iff)
  then show ?thesis using r n assms(3)
    by (simp add: history_poll_def plain_get_def history_get_def act_defs get_computed_def
          plain_id_def is_object_def)
qed

lemma history_poll_present:
  assumes "is_snapshot res" and "has_job jid res"
  shows "\<exists>item. history_poll rt hurl (Str jid) res = ([history_get hurl], Inr item)
           \<and> truthy_item item"
proof -
  from assms(1) obtain r kvs where r: "res = Response r" "ok r" "body_json r = Some (Obj kvs)"
    and e: "list_all (\<lambda>kv. is_entry (snd kv)) kvs"
    by (auto simp: is_snapshot_def split: fetch_result.splits option.splits js.splits)
  with assms(2) have i: "jid \<in> fst ` set kvs" by (simp add: has_job_def)
  then obtain v where v: "map_of kvs jid = Some v" by (metis domD dom_map_of_conv_image_fst)
  then have "truthy v" using e by (rule map_of_entry[rotated])
  then show ?thesis using r v i
    by (simp add: history_poll_def plain_get_def history_get_def act_defs get_computed_def)
qed

lemma history_poll_failed:
  assumes "failed res"
  shows "history_poll rt hurl pid res = ([history_get hurl], Inl comfy_error)"
  using assms
  by (auto simp: failed_def history_poll_def plain_get_def history_get_def act_defs
        split: fetch_result.splits)

text \<open>
  A history that is an array: under the job id \<open>map\<close> the lookup finds the method
  of that name, and under \<open>0\<close> nothing.
\<close>

lemma history_poll_array:
  "history_poll example_runtime hurl (Str (lit ''map'')) (Response (ok_response (Arr [])))
     = ([history_get hurl], Inr Member)
   \<and> history_poll example_runtime hurl (Str (lit ''0'')) (Response (ok_response (Arr [])))
     = ([history_get hurl], Inr (Own Undefined))"
  by (simp add: history_poll_def plain_get_def history_get_def act_defs ok_response_def ok_def
        get_computed_def object_prototype_members_def is_object_def example_runtime_def
        array_index_def is_digit_def lit_Cons)

text \<open>
  The loop started at poll \<open>m\<close>, when the polls before number \<open>nl\<close> are snapshots
  without the job id and poll \<open>nl\<close> ends the loop with the result \<open>res\<close>.
\<close>

lemma poll_loop_run:
  assumes "plain_id jid"
    and "history_poll rt hurl (Str jid) (history nl) = ([history_get hurl], res)"
    and "(\<exists>e. res = Inl e) \<or> (\<exists>item. res = Inr item \<and> truthy_item item)"
  shows "k = nl - m \<Longrightarrow> m \<le> nl \<Longrightarrow>
     (\<forall>i. m \<le> i \<and> i < nl \<longrightarrow> is_snapshot (history i) \<and> \<not> has_job jid (history i)) \<Longrightarrow>
     poll_loop rt hurl (Str jid) history m acc
       = Some (acc @ concat (replicate k [history_get hurl, Delay 100]) @ [history_get hurl], res)"
proof (induction k arbitrary: m acc)
  case 0
  then have "m = nl" by simp
  then show ?case using assms(2,3) by (subst poll_loop.simps) auto
next
  case (Suc k)
  then have lt: "m < nl" by simp
  then have "is_snapshot (history m)" "\<not> has_job jid (history m)" using Suc.prems by simp_all
  then have p: "history_poll rt hurl (Str jid) (history m) = ([history_get hurl], Inr (Own Undefined))"
    using history_poll_absent assms(1) by blast
  have "poll_loop rt hurl (Str jid) history (Suc m) (acc @ [history_get hurl] @ [Delay 100])
       = Some ((acc @ [history_get hurl] @ [Delay 100])
               @ concat (replicate k [history_get hurl, Delay 100]) @ [history_get hurl], res)"
    using Suc.prems lt by (intro Suc.IH) auto
  then show ?case using p by (subst poll_loop.simps) simp
qed

lemma poll_loop_found:
  assumes "plain_id jid"
    and "\<forall>i<n. is_snapshot (history i) \<and> \<not> has_job jid (history i)"
    and "is_snapshot (history n)" and "has_job jid (history n)"
  shows "\<exists>item. poll_loop rt hurl (Str jid) history 0 acc
           = Some (acc @ concat (replicate n [history_get hurl, Delay 100]) @ [history_get hurl],
                   Inr item)"
proof -
  obtain item where i: "history_poll rt hurl (Str jid) (history n) = ([history_get hurl], Inr item)"
    and t: "truthy_item item"
    using history_poll_present[OF assms(3,4)] by blast
  have "poll_loop rt hurl (Str jid) history 0 acc
       = Some (acc @ concat (replicate n [history_get hurl, Delay 100]) @ [history_get hurl], Inr item)"
    using assms(2) t
    by (intro poll_loop_run[where history = history and nl = n, OF assms(1) i]) simp_all
  then show ?thesis by blast
qed

lemma poll_loop_fails:
  assumes "plain_id jid"
    and "\<forall>i<n. is_snapshot (history i) \<and> \<not> has_job jid (history i)"
    and "failed (history n)"
  shows "poll_loop rt hurl (Str jid) history 0 acc
           = Some (acc @ concat (replicate n [history_get hurl, Delay 100]) @ [history_get hurl],
                   Inl comfy_error)"
  using assms(2)
  by (intro poll_loop_run[where history = history and nl = n,
              OF assms(1) history_poll_failed[OF assms(3)]]) simp_all

lemma poll_loop_returns_only_if:
  assumes "poll_loop rt hurl pid history m acc = Some y"
  shows "(\<forall>n. is_snapshot (history n)) \<longrightarrow> pid = Str jid \<longrightarrow> plain_id jid \<longrightarrow>
         (\<exists>n\<ge>m. has_job jid (history n))"
proof (rule poll_loop.raw_induct[where P = "\<lambda>rt hurl pid history m acc y.
          (\<forall>n. is_snapshot (history n)) \<longrightarrow> pid = Str jid \<longrightarrow> plain_id jid \<longrightarrow>
          (\<exists>n\<ge>m. has_job jid (history n))",
        OF _ assms])
  fix f rt hurl pid history m acc and y :: "looked_up act"
  assume IH: "\<And>a b c d e g y. f a b c d e g = Some y \<Longrightarrow>
           (\<forall>n. is_snapshot (d n)) \<longrightarrow> c = Str jid \<longrightarrow> plain_id jid \<longrightarrow>
           (\<exists>n\<ge>e. has_job jid (d n))"
    and body: "(case history_poll rt hurl pid (history m) of
                  (t, Inl e) \<Rightarrow> Some (acc @ t, Inl e)
                | (t, Inr item) \<Rightarrow>
                    if truthy_item item then Some (acc @ t, Inr item)
                    else f rt hurl pid history (Suc m) (acc @ t @ [Delay 100])) = Some y"
  show "(\<forall>n. is_snapshot (history n)) \<longrightarrow> pid = Str jid \<longrightarrow> plain_id jid \<longrightarrow>
        (\<exists>n\<ge>m. has_job jid (history n))"
  proof (intro impI)
    assume s: "\<forall>n. is_snapshot (history n)" and i: "pid = Str jid" and pl: "plain_id jid"
    show "\<exists>n\<ge>m. has_job jid (history n)"
    proof (cases "has_job jid (history m)")
      case True
      then show ?thesis by blast
    next
      case False
      then have p: "history_poll rt hurl (Str jid) (history m) = ([history_get hurl], Inr (Own Undefined))"
        using history_poll_absent s pl by blast
      from body have "f rt hurl pid history (Suc m) (acc @ [history_get hurl] @ [Delay 100]) = Some y"
        using p i by simp
      then have "\<exists>n\<ge>Suc m. has_job jid (history n)" using IH s i pl by blast
      then show ?thesis using Suc_leD by blast
    qed
  qed
qed

lemma poll_loop_never:
  assumes "\<forall>n. is_snapshot (history n)" and "plain_id jid" and "\<forall>n. \<not> has_job jid (history n)"
  shows "poll_loop rt hurl (Str jid) history 0 acc = None"
proof (rule ccontr)
  assume "poll_loop rt hurl (Str jid) history 0 acc \<noteq> None"
  then obtain y where y: "poll_loop rt hurl (Str jid) history 0 acc = Some y" by auto
  have "(\<forall>n. is_snapshot (history n)) \<longrightarrow> Str jid = Str jid \<longrightarrow> plain_id jid \<longrightarrow>
        (\<exists>n\<ge>0. has_job jid (history n))"
    by (rule poll_loop_returns_only_if[OF y])
  then obtain n where "has_job jid (history n)" using assms(1,2) by auto
  with assms(3) show False by simp
qed

lemma poll_loop_iff:
  assumes "\<forall>n. is_snapshot (history n)" and "plain_id jid"
  shows "poll_loop rt hurl (Str jid) history 0 acc \<noteq> None \<longleftrightarrow> (\<exists>n. has_job jid (history n))"
proof
  assume p: "poll_loop rt hurl (Str jid) history 0 acc \<noteq> None"
  show "\<exists>n. has_job jid (history n)"
  proof (rule ccontr)
    assume "\<not> (\<exists>n. has_job jid (history n))"
    then have "\<forall>n. \<not> has_job jid (history n)" by simp
    then have "poll_loop rt hurl (Str jid) history 0 acc = None" by (rule poll_loop_never[OF assms])
    with p show False by simp
  qed
next
  assume d: "\<exists>n. has_job jid (history n)"
  define n0 where "n0 = (LEAST n. has_job jid (history n))"
  have 1: "has_job jid (history n0)" unfolding n0_def using d by (rule LeastI_ex)
  have 2: "\<forall>i<n0. is_snapshot (history i) \<and> \<not> has_job jid (history i)"
    unfolding n0_def using not_less_Least assms(1) by blast
  have 3: "is_snapshot (history n0)" using assms(1) by simp
  from poll_loop_found[OF assms(2) 2 3 1] obtain item where "poll_loop rt hurl (Str jid) history 0 acc
           = Some (acc @ concat (replicate n0 [history_get hurl, Delay 100]) @ [history_get hurl],
                   Inr item)" by blast
  then show "poll_loop rt hurl (Str jid) history 0 acc \<noteq> None" by simp
qed

lemma submit_job_ok:
  assumes "parsed_url req = Some u" and "ok r" and "body_json r = Some d"
    and "get_prop d (lit ''prompt_id'') = Inr pid"
  shows "submit_job req (Response r) =
     ([Fetch \<lparr>req_method = POST, req_url = UrlObject (set_pathname u (lit ''/prompt'')),
               req_headers = [], req_body = RawBody (field req (lit ''prompt'')),
               req_timeout = None\<rparr>],
      Inr (pid, set_pathname u (lit ''/history'')))"
  using assms by (simp add: submit_job_def Let_def new_URL_def ret_def bindA_def fetch_def json_of_def of_result_def)

lemma fetch_asset_reply:
  assumes "fetch_asset rt req item asset = (t, Inr rep)"
  shows "\<exists>r. asset = Response r \<and> ok r \<and> rep = SendBase64 200 (body_bytes r)"
  using assms unfolding fetch_asset_def Let_def
  by (elim bindA_InrE)
     (auto simp: plain_get_def fetch_def throw_exn_def ret_def split: if_splits fetch_result.splits)

lemma comfy_generate_reply:
  assumes "comfy_generate rt req submit history asset = Some (t, rep)"
  shows "rep = SendStatus 500 \<or> (\<exists>r. asset = Response r \<and> ok r \<and> rep = SendBase64 200 (body_bytes r))"
proof (cases "submit_job req submit")
  case (Pair t1 r1)
  show ?thesis
  proof (cases r1)
    case (Inl e)
    then show ?thesis using assms Pair by (simp add: comfy_generate_def)
  next
    case (Inr p)
    obtain pid hurl where p: "p = (pid, hurl)" by (cases p)
    from assms Pair Inr p obtain polled where
      pl: "poll_loop rt hurl pid history 0 t1 = Some polled"
      and c: "catch_500 (bindA polled (\<lambda>item. fetch_asset rt req item asset)) = (t, rep)"
      by (auto simp: comfy_generate_def)
    obtain t2 r2 where b: "bindA polled (\<lambda>item. fetch_asset rt req item asset) = (t2, r2)" by force
    show ?thesis
    proof (cases r2)
      case (Inl e)
      then show ?thesis using b c by (simp add: catch_500_def)
    next
      case r: (Inr v)
      then have "rep = v" using b c by (simp add: catch_500_def)
      moreover obtain ta x tb where "fetch_asset rt req x asset = (tb, Inr v)"
        using b r by (auto elim: bindA_InrE)
      ultimately show ?thesis using fetch_asset_reply by blast
    qed
  qed
qed

lemma comfy_generate_submit_fail:
  "\<not> ok r \<Longrightarrow> \<exists>t. comfy_generate rt req (Response r) history asset = Some (t, SendStatus 500)"
  by (auto simp: comfy_generate_def submit_job_def act_defs Let_def split: option.splits)

text \<open>A history poll with a status outside 2xx ends the flow with a bare 500.\<close>

lemma comfy_generate_poll_fail:
  assumes "parsed_url req = Some u" and "ok s" and "body_json s = Some d"
    and "get_prop d (lit ''prompt_id'') = Inr (Str jid)" and "plain_id jid"
    and "\<forall>i<n. is_snapshot (history i) \<and> \<not> has_job jid (history i)"
    and "failed (history n)"
  shows "comfy_generate rt req (Response s) history asset =
     Some ([Fetch \<lparr>req_method = POST, req_url = UrlObject (set_pathname u (lit ''/prompt'')),
                    req_headers = [], req_body = RawBody (field req (lit ''prompt'')),
                    req_timeout = None\<rparr>]
           @ concat (replicate n [history_get (set_pathname u (lit ''/history'')), Delay 100])
           @ [history_get (set_pathname u (lit ''/history''))],
           SendStatus 500)"
  unfolding comfy_generate_def submit_job_ok[OF assms(1-4)]
  by (simp add: poll_loop_fails[OF assms(5-7)] bindA_def catch_500_def)

text \<open>An asset response with a status outside 2xx ends the flow with a bare 500.\<close>

lemma comfy_generate_asset_fail:
  assumes "parsed_url req = Some u" and "ok s" and "body_json s = Some d"
    and "get_prop d (lit ''prompt_id'') = Inr (Str jid)" and "plain_id jid"
    and "\<forall>i<n. is_snapshot (history i) \<and> \<not> has_job jid (history i)"
    and "is_snapshot (history n)" and "has_job jid (history n)"
    and "\<not> ok r"
  shows "\<exists>t. comfy_generate rt req (Response s) history (Response r) = Some (t, SendStatus 500)"
proof -
  obtain item where "poll_loop rt (set_pathname u (lit ''/history'')) (Str jid) history 0
      [Fetch \<lparr>req_method = POST, req_url = UrlObject (set_pathname u (lit ''/prompt'')),
               req_headers = [], req_body = RawBody (field req (lit ''prompt'')),
               req_timeout = None\<rparr>]
    = Some ([Fetch \<lparr>req_method = POST, req_url = UrlObject (set_pathname u (lit ''/prompt'')),
               req_headers = [], req_body = RawBody (field req (lit ''prompt'')),
               req_timeout = None\<rparr>]
            @ concat (replicate n [history_get (set_pathname u (lit ''/history'')), Delay 100])
            @ [history_get (set_pathname u (lit ''/history''))], Inr item)"
    using poll_loop_found[OF assms(5-8)] by blast
  then obtain t rep where c: "comfy_generate rt req (Response s) history (Response r) = Some (t, rep)"
    unfolding comfy_generate_def submit_job_ok[OF assms(1-4)]
    by (cases "catch_500 (bindA
          ([Fetch \<lparr>req_method = POST, req_url = UrlObject (set_pathname u (lit ''/prompt'')),
               req_headers = [], req_body = RawBody (field req (lit ''prompt'')),
               req_timeout = None\<rparr>]
            @ concat (replicate n [history_get (set_pathname u (lit ''/history'')), Delay 100])
            @ [history_get (set_pathname u (lit ''/history''))], Inr item)
          (\<lambda>item. fetch_asset rt req item (Response r)))") simp
  then have "rep = SendStatus 500" using comfy_generate_reply[OF c] assms(9) by auto
  with c show ?thesis by blast
qed
section \<open>Backend failures and the caller\<close>

lemma bearer_Str: "bearer rt (Str key) = ([], Inr (Authorization_Bearer key))"
  by (simp add: bearer_def bindA_def of_result_def ret_def)

lemma caption_forwards:
  assumes "\<not> ok r" and "\<And>k. readSecret k = Inr (Str key)" and "key \<noteq> []"
    and "field req (lit ''api'') = Str (lit ''openai'') \<or> field req (lit ''api'') = Str (lit ''openrouter'')"
  shows "snd (openai_caption_image rt readSecret req (Response r)) = Send 500 (Str (body_text r))
       \<and> LVal (Str (body_text r)) \<in> set (logged (fst (openai_caption_image rt readSecret req (Response r))))"
  using assms
  by (auto simp add: openai_caption_image_def forward_failure_def Let_def ret_def emit_def bindA_def fetch_def of_result_def catch_internal_def bearer_Str)

lemma transcribe_forwards:
  assumes "\<not> ok r" and "\<And>k. readSecret k = Inr (Str key)" and "key \<noteq> []"
    and "upload req = Some path"
    and "field req (lit ''model'') = Str model"
    and "field req (lit ''language'') = Undefined \<or> field req (lit ''language'') = Str language"
  shows "snd (openai_transcribe_audio rt readSecret req (Response r) rm_throws) = Send 500 (Str (body_text r))
       \<and> LVal (Str (body_text r)) \<in> set (logged (fst (openai_transcribe_audio rt readSecret req (Response r) rm_throws)))"
  using assms
  by (auto simp add: openai_transcribe_audio_def forward_failure_def Let_def ret_def emit_def bindA_def fetch_def of_result_def catch_internal_def bearer_Str form_append_def)

text \<open>
  An array under \<open>model\<close> (the body \<open>model=a&model=b\<close>) never reaches the backend:
  \<open>formData.append\<close> throws and the handler answers \<open>Internal server error\<close>.
\<close>

lemma transcribe_refuses_array:
  assumes "\<And>k. readSecret k = Inr (Str key)" and "key \<noteq> []"
    and "upload req = Some path" and "field req (lit ''model'') = Arr xs"
  shows "openai_transcribe_audio rt readSecret req res rm_throws =
     ([Log [LStr ''Processing audio file'', LVal (Str path)],
       Log [LStr ''OpenAI transcription failed'', LExn (Error ''Arrays are not supported.'' None)]],
      Send 500 (Str (lit ''Internal server error'')))"
  using assms
  by (simp add: openai_transcribe_audio_def Let_def ret_def emit_def bindA_def of_result_def
        catch_internal_def form_append_def throw_exn_def)

lemma voice_forwards:
  assumes "\<not> ok r" and "\<And>k. readSecret k = Inr (Str key)" and "key \<noteq> []"
  shows "snd (openai_generate_voice rt readSecret req (Response r)) = Send 500 (Str (body_text r))
       \<and> LVal (Str (body_text r)) \<in> set (logged (fst (openai_generate_voice rt readSecret req (Response r))))"
  using assms
  by (simp add: openai_generate_voice_def forward_failure_def Let_def ret_def emit_def bindA_def fetch_def of_result_def catch_internal_def bearer_Str)

lemma image_forwards:
  assumes "\<not> ok r" and "\<And>k. readSecret k = Inr (Str key)" and "key \<noteq> []"
  shows "snd (openai_generate_image rt readSecret req (Response r)) = Send 500 (Str (body_text r))
       \<and> LVal (Str (body_text r)) \<in> set (logged (fst (openai_generate_image rt readSecret req (Response r))))"
  using assms
  by (simp add: openai_generate_image_def forward_failure_def Let_def ret_def emit_def bindA_def fetch_def of_result_def catch_internal_def bearer_Str)

lemma webui_get_cases:
  "webui_get req path tmo (Response r) = (t, Inr r') \<Longrightarrow> r' = r"
  by (auto simp: webui_get_def act_defs Let_def split: option.splits)

lemma sd_ping_fail: "\<not> ok r \<Longrightarrow> snd (sd_ping req (Response r)) = SendStatus 500"
  by (auto simp: sd_ping_def webui_get_def act_defs Let_def split: option.splits)

lemma sd_samplers_fail: "\<not> ok r \<Longrightarrow> snd (sd_samplers req (Response r)) = SendStatus 500"
  by (auto simp: sd_samplers_def webui_get_def act_defs Let_def split: option.splits)

lemma sd_models_fail: "\<not> ok r \<Longrightarrow> snd (sd_models req (Response r)) = SendStatus 500"
  by (auto simp: sd_models_def webui_get_def act_defs Let_def split: option.splits)

lemma sdnext_upscalers_fail: "\<not> ok r \<Longrightarrow> snd (sdnext_upscalers req (Response r)) = SendStatus 500"
  by (auto simp: sdnext_upscalers_def webui_get_def act_defs Let_def split: option.splits)

lemma sd_set_model_fail: "\<not> ok r \<Longrightarrow> snd (sd_set_model rt req (Response r) progress) = SendStatus 500"
  by (auto simp: sd_set_model_def act_defs Let_def split: option.splits)

lemma sd_generate_fail:
  "\<not> ok r \<Longrightarrow> snd (sd_generate req (Response r)) = SendStatus 500"
  by (auto simp: sd_generate_def act_defs Let_def split: option.splits)

lemma sd_generate_logs_cause:
  "\<not> ok r \<Longrightarrow> parsed_url req = Some u \<Longrightarrow>
   LExn (Error ''SD WebUI returned an error.'' (Some (body_text r))) \<in> set (logged (fst (sd_generate req (Response r))))"
  by (auto simp: sd_generate_def act_defs Let_def split: option.splits)

lemma sd_upscalers_fail:
  "\<not> ok r \<Longrightarrow> snd (sd_upscalers req (Response r) res2 latent_first) = SendStatus 500
    \<and> snd (sd_upscalers req res1 (Response r) latent_first) = SendStatus 500"
  by (auto simp: sd_upscalers_def getUpscalerModels_def getLatentUpscalers_def webui_get_def act_defs Let_def
      split: option.splits fetch_result.splits sum.splits prod.splits)

lemma comfy_fail:
  assumes "\<not> ok r"
  shows "snd (comfy_ping req (Response r)) = SendStatus 500"
    and "snd (comfy_samplers req (Response r)) = SendStatus 500"
    and "snd (comfy_models req (Response r)) = SendStatus 500"
    and "snd (comfy_schedulers req (Response r)) = SendStatus 500"
    and "snd (comfy_vaes req (Response r)) = SendStatus 500"
  using assms
  by (auto simp: comfy_ping_def comfy_samplers_def comfy_models_def comfy_schedulers_def comfy_vaes_def
      comfy_object_info_def comfy_get_def plain_get_def act_defs Let_def split: option.splits)

text \<open>
  C3 (as stated): on a backend failure the raw error text reaches the caller at exactly one
  call site.  The caption-image and the generate-image handlers both forward it (as do the
  other two handlers of the hosted provider), and under status 500, not under the backend's
  own status 429.
\<close>

theorem two_handlers_forward_error_text:
  "\<not> ok rate_limited
   \<and> snd (openai_caption_image example_runtime example_secrets caption_request (Response rate_limited))
       = Send 500 (Str (body_text rate_limited))
   \<and> snd (openai_generate_image example_runtime example_secrets caption_request (Response rate_limited))
       = Send 500 (Str (body_text rate_limited))"
proof -
  have n: "\<not> ok rate_limited" by (simp add: ok_def rate_limited_def)
  have a: "field caption_request (lit ''api'') = Str (lit ''openai'')
         \<or> field caption_request (lit ''api'') = Str (lit ''openrouter'')"
    by (simp add: field_def caption_request_def)
  have k: "\<And>k. example_secrets k = Inr (Str (lit ''sk-example''))" by (simp add: example_secrets_def)
  have ne: "lit ''sk-example'' \<noteq> []" by simp
  show ?thesis
    using n caption_forwards[where readSecret = example_secrets, OF n k ne a]
      image_forwards[where readSecret = example_secrets, OF n k ne]
    by simp
qed

text \<open>
  C3 (amended): on a backend answer outside 2xx, each of the four handlers of the hosted
  provider that reaches the backend (a key is stored; for the transcription an audio file
  is uploaded, the model is a string and the language absent or a string) logs the
  backend's raw error text and forwards it to the caller under status 500; every handler of
  the image-generation module that tests the status answers with a bare status 500 and no
  payload, the generate handler logging the error text as the cause of its error; and the
  polling generation flow answers with a bare 500 at each of its three calls, the
  submission, a history poll (after \<open>n\<close> polls without the job id) and the asset
  fetch, its only other answer being the base64 text of a successful asset response.
\<close>

theorem backend_failure_replies:
  assumes "\<not> ok r"
    and "\<And>k. readSecret k = Inr (Str key)" and "key \<noteq> []"
    and "field req (lit ''api'') = Str (lit ''openai'') \<or> field req (lit ''api'') = Str (lit ''openrouter'')"
    and "upload req = Some path"
    and "field req (lit ''model'') = Str model"
    and "field req (lit ''language'') = Undefined \<or> field req (lit ''language'') = Str language"
    and "parsed_url req = Some u"
    and "ok s" and "body_json s = Some d" and "get_prop d (lit ''prompt_id'') = Inr (Str jid)"
    and "plain_id jid"
  shows "snd (openai_caption_image rt readSecret req (Response r)) = Send 500 (Str (body_text r))
     \<and> LVal (Str (body_text r)) \<in> set (logged (fst (openai_caption_image rt readSecret req (Response r))))
     \<and> snd (openai_transcribe_audio rt readSecret req (Response r) rm_throws) = Send 500 (Str (body_text r))
     \<and> LVal (Str (body_text r))
           \<in> set (logged (fst (openai_transcribe_audio rt readSecret req (Response r) rm_throws)))
     \<and> snd (openai_generate_voice rt readSecret req (Response r)) = Send 500 (Str (body_text r))
     \<and> LVal (Str (body_text r)) \<in> set (logged (fst (openai_generate_voice rt readSecret req (Response r))))
     \<and> snd (openai_generate_image rt readSecret req (Response r)) = Send 500 (Str (body_text r))
     \<and> LVal (Str (body_text r)) \<in> set (logged (fst (openai_generate_image rt readSecret req (Response r))))
     \<and> snd (sd_ping req (Response r)) = SendStatus 500
     \<and> snd (sd_upscalers req (Response r) res2 latent_first) = SendStatus 500
     \<and> snd (sd_upscalers req res1 (Response r) latent_first) = SendStatus 500
     \<and> snd (sd_samplers req (Response r)) = SendStatus 500
     \<and> snd (sd_models req (Response r)) = SendStatus 500
     \<and> snd (sd_set_model rt req (Response r) progress) = SendStatus 500
     \<and> snd (sd_generate req (Response r)) = SendStatus 500
     \<and> LExn (Error ''SD WebUI returned an error.'' (Some (body_text r)))
           \<in> set (logged (fst (sd_generate req (Response r))))
     \<and> snd (sdnext_upscalers req (Response r)) = SendStatus 500
     \<and> snd (comfy_ping req (Response r)) = SendStatus 500
     \<and> snd (comfy_samplers req (Response r)) = SendStatus 500
     \<and> snd (comfy_models req (Response r)) = SendStatus 500
     \<and> snd (comfy_schedulers req (Response r)) = SendStatus 500
     \<and> snd (comfy_vaes req (Response r)) = SendStatus 500
     \<and> (\<exists>t. comfy_generate rt req (Response r) history asset = Some (t, SendStatus 500))
     \<and> ((\<forall>i<n. is_snapshot (history i) \<and> \<not> has_job jid (history i)) \<and> history n = Response r \<longrightarrow>
           comfy_generate rt req (Response s) history asset =
             Some ([Fetch \<lparr>req_method = POST, req_url = UrlObject (set_pathname u (lit ''/prompt'')),
                            req_headers = [], req_body = RawBody (field req (lit ''prompt'')),
                            req_timeout = None\<rparr>]
                   @ concat (replicate n [history_get (set_pathname u (lit ''/history'')), Delay 100])
                   @ [history_get (set_pathname u (lit ''/history''))],
                   SendStatus 500))
     \<and> ((\<forall>i<n. is_snapshot (history i) \<and> \<not> has_job jid (history i))
          \<and> is_snapshot (history n) \<and> has_job jid (history n) \<longrightarrow>
           (\<exists>t. comfy_generate rt req (Response s) history (Response r) = Some (t, SendStatus 500)))
     \<and> (\<forall>t rep. comfy_generate rt req submit history asset = Some (t, rep) \<longrightarrow>
           rep = SendStatus 500
           \<or> (\<exists>r'. asset = Response r' \<and> ok r' \<and> rep = SendBase64 200 (body_bytes r')))"
proof -
  note o = assms(1)
  have g: "\<forall>t rep. comfy_generate rt req submit history asset = Some (t, rep) \<longrightarrow>
           rep = SendStatus 500
           \<or> (\<exists>r'. asset = Response r' \<and> ok r' \<and> rep = SendBase64 200 (body_bytes r'))"
    using comfy_generate_reply by blast
  have hp: "(\<forall>i<n. is_snapshot (history i) \<and> \<not> has_job jid (history i)) \<and> history n = Response r \<longrightarrow>
           comfy_generate rt req (Response s) history asset =
             Some ([Fetch \<lparr>req_method = POST, req_url = UrlObject (set_pathname u (lit ''/prompt'')),
                            req_headers = [], req_body = RawBody (field req (lit ''prompt'')),
                            req_timeout = None\<rparr>]
                   @ concat (replicate n [history_get (set_pathname u (lit ''/history'')), Delay 100])
                   @ [history_get (set_pathname u (lit ''/history''))],
                   SendStatus 500)"
  proof (intro impI, elim conjE)
    assume a: "\<forall>i<n. is_snapshot (history i) \<and> \<not> has_job jid (history i)" and b: "history n = Response r"
    have "failed (history n)" using b o by (simp add: failed_def)
    then show "comfy_generate rt req (Response s) history asset =
             Some ([Fetch \<lparr>req_method = POST, req_url = UrlObject (set_pathname u (lit ''/prompt'')),
                            req_headers = [], req_body = RawBody (field req (lit ''prompt'')),
                            req_timeout = None\<rparr>]
                   @ concat (replicate n [history_get (set_pathname u (lit ''/history'')), Delay 100])
                   @ [history_get (set_pathname u (lit ''/history''))],
                   SendStatus 500)"
      by (rule comfy_generate_poll_fail[OF assms(8-12) a])
  qed
  have af: "(\<forall>i<n. is_snapshot (history i) \<and> \<not> has_job jid (history i))
          \<and> is_snapshot (history n) \<and> has_job jid (history n) \<longrightarrow>
           (\<exists>t. comfy_generate rt req (Response s) history (Response r) = Some (t, SendStatus 500))"
    using comfy_generate_asset_fail[OF assms(8-12) _ _ _ o] by blast
  show ?thesis
    using caption_forwards[where readSecret = readSecret and key = key, OF assms(1-4)]
      transcribe_forwards[where readSecret = readSecret and key = key, OF assms(1-3) assms(5-7)]
      voice_forwards[where readSecret = readSecret and key = key, OF assms(1-3)]
      image_forwards[where readSecret = readSecret and key = key, OF assms(1-3)]
      sd_ping_fail[OF o] sd_upscalers_fail[OF o] sd_samplers_fail[OF o] sd_models_fail[OF o]
      sd_set_model_fail[OF o] sd_generate_fail[OF o] sd_generate_logs_cause[OF o assms(8)]
      sdnext_upscalers_fail[OF o] comfy_fail[OF o] comfy_generate_submit_fail[OF o] g hp af
    by (intro conjI) blast+
qed

theorem backend_failure_replies_witness:
  "\<not> ok rate_limited
   \<and> example_secrets OPENAI = Inr (Str (lit ''sk-example'')) \<and> lit ''sk-example'' \<noteq> []
   \<and> field caption_request (lit ''api'') = Str (lit ''openai'')
   \<and> upload caption_request = Some (lit ''/tmp/upload.wav'')
   \<and> field caption_request (lit ''model'') = Str (lit ''gpt-4-vision-preview'')
   \<and> field caption_request (lit ''language'') = Undefined
   \<and> parsed_url caption_request = Some example_url
   \<and> ok (ok_response (Obj [(lit ''prompt_id'', Str (lit ''abc123''))]))
   \<and> plain_id (lit ''abc123'')
   \<and> snd (openai_caption_image example_runtime example_secrets caption_request (Response rate_limited))
       = Send 500 (Str (lit ''{\"error\":{\"message\":\"Rate limit reached\"}}''))
   \<and> snd (openai_transcribe_audio example_runtime example_secrets caption_request (Response rate_limited) False)
       = Send 500 (Str (lit ''{\"error\":{\"message\":\"Rate limit reached\"}}''))
   \<and> snd (sd_ping caption_request (Response rate_limited)) = SendStatus 500
   \<and> snd (sd_generate caption_request (Response rate_limited)) = SendStatus 500
   \<and> LExn (Error ''SD WebUI returned an error.''
             (Some (lit ''{\"error\":{\"message\":\"Rate limit reached\"}}'')))
         \<in> set (logged (fst (sd_generate caption_request (Response rate_limited))))
   \<and> snd (comfy_ping caption_request (Response rate_limited)) = SendStatus 500
   \<and> failing_history 0 = Response rate_limited
   \<and> comfy_generate example_runtime caption_request scenario_submit failing_history NetworkError
       = Some ([Fetch \<lparr>req_method = POST,
                       req_url = UrlObject (set_pathname example_url (lit ''/prompt'')),
                       req_headers = [], req_body = RawBody (Str (lit ''What is this?'')),
                       req_timeout = None\<rparr>,
                history_get (set_pathname example_url (lit ''/history''))],
               SendStatus 500)
   \<and> is_snapshot (scenario_history (lit ''9'') 0) \<and> \<not> has_job (lit ''abc123'') (scenario_history (lit ''9'') 0)
   \<and> is_snapshot (scenario_history (lit ''9'') 1) \<and> \<not> has_job (lit ''abc123'') (scenario_history (lit ''9'') 1)
   \<and> is_snapshot (scenario_history (lit ''9'') 2) \<and> has_job (lit ''abc123'') (scenario_history (lit ''9'') 2)
   \<and> map_option snd (comfy_generate example_runtime caption_request scenario_submit
         (scenario_history (lit ''9'')) (Response rate_limited)) = Some (SendStatus 500)"
proof -
  have n: "\<not> ok rate_limited" by (simp add: ok_def rate_limited_def)
  have a: "field caption_request (lit ''api'') = Str (lit ''openai'')"
    by (simp add: field_def caption_request_def)
  have a': "field caption_request (lit ''api'') = Str (lit ''openai'')
         \<or> field caption_request (lit ''api'') = Str (lit ''openrouter'')"
    using a by simp
  have k: "\<And>k. example_secrets k = Inr (Str (lit ''sk-example''))" by (simp add: example_secrets_def)
  have ne: "lit ''sk-example'' \<noteq> []" by simp
  have up: "upload caption_request = Some (lit ''/tmp/upload.wav'')" by (simp add: caption_request_def)
  have m: "field caption_request (lit ''model'') = Str (lit ''gpt-4-vision-preview'')"
    by (simp add: field_def caption_request_def)
  have l: "field caption_request (lit ''language'') = Undefined"
    by (simp add: field_def caption_request_def)
  have l': "field caption_request (lit ''language'') = Undefined
          \<or> field caption_request (lit ''language'') = Str []"
    using l by simp
  have pr: "field caption_request (lit ''prompt'') = Str (lit ''What is this?'')"
    by (simp add: field_def caption_request_def)
  have pu: "parsed_url caption_request = Some example_url" by (simp add: caption_request_def)
  have bt: "body_text rate_limited = lit ''{\"error\":{\"message\":\"Rate limit reached\"}}''"
    by (simp add: rate_limited_def)
  have o: "ok (ok_response (Obj [(lit ''prompt_id'', Str (lit ''abc123''))]))"
    by (simp add: ok_response_def ok_def)
  have b: "body_json (ok_response (Obj [(lit ''prompt_id'', Str (lit ''abc123''))]))
             = Some (Obj [(lit ''prompt_id'', Str (lit ''abc123''))])"
    by (simp add: ok_response_def)
  have g: "get_prop (Obj [(lit ''prompt_id'', Str (lit ''abc123''))]) (lit ''prompt_id'')
             = Inr (Str (lit ''abc123''))"
    by simp
  have pl: "plain_id (lit ''abc123'')" by (simp add: plain_id_def object_prototype_members_def)
  have f0: "failing_history 0 = Response rate_limited" by (simp add: failing_history_def)
  have s0: "is_snapshot (scenario_history (lit ''9'') 0)" "is_snapshot (scenario_history (lit ''9'') 1)"
    "is_snapshot (scenario_history (lit ''9'') 2)"
    by (simp_all add: is_snapshot_def scenario_history_def ok_response_def ok_def is_entry_def
          scenario_entry_def)
  have j0: "\<not> has_job (lit ''abc123'') (scenario_history (lit ''9'') 0)"
    "\<not> has_job (lit ''abc123'') (scenario_history (lit ''9'') 1)"
    "has_job (lit ''abc123'') (scenario_history (lit ''9'') 2)"
    by (simp_all add: has_job_def scenario_history_def ok_response_def)
  have before: "\<forall>i<2. is_snapshot (scenario_history (lit ''9'') i)
                     \<and> \<not> has_job (lit ''abc123'') (scenario_history (lit ''9'') i)"
    by (simp add: is_snapshot_def has_job_def scenario_history_def ok_response_def ok_def)
  note t = backend_failure_replies[where readSecret = example_secrets and rt = example_runtime,
      OF n k ne a' up m l' pu o b g pl]
  have basic: "snd (openai_caption_image example_runtime example_secrets caption_request (Response rate_limited))
       = Send 500 (Str (body_text rate_limited))
     \<and> snd (openai_transcribe_audio example_runtime example_secrets caption_request (Response rate_limited) False)
       = Send 500 (Str (body_text rate_limited))
     \<and> snd (sd_ping caption_request (Response rate_limited)) = SendStatus 500
     \<and> snd (sd_generate caption_request (Response rate_limited)) = SendStatus 500
     \<and> LExn (Error ''SD WebUI returned an error.'' (Some (body_text rate_limited)))
         \<in> set (logged (fst (sd_generate caption_request (Response rate_limited))))
     \<and> snd (comfy_ping caption_request (Response rate_limited)) = SendStatus 500"
    using t[of False] by blast
  have poll: "comfy_generate example_runtime caption_request scenario_submit failing_history NetworkError
       = Some ([Fetch \<lparr>req_method = POST,
                       req_url = UrlObject (set_pathname example_url (lit ''/prompt'')),
                       req_headers = [], req_body = RawBody (Str (lit ''What is this?'')),
                       req_timeout = None\<rparr>,
                history_get (set_pathname example_url (lit ''/history''))],
               SendStatus 500)"
    using t[where n = 0 and history = failing_history and asset = NetworkError] f0
    unfolding scenario_submit_def pr by simp
  have "\<exists>t. comfy_generate example_runtime caption_request scenario_submit
         (scenario_history (lit ''9'')) (Response rate_limited) = Some (t, SendStatus 500)"
    using t[where n = 2 and history = "scenario_history (lit ''9'')"] before s0(3) j0(3)
    unfolding scenario_submit_def by blast
  then have asset: "map_option snd (comfy_generate example_runtime caption_request scenario_submit
         (scenario_history (lit ''9'')) (Response rate_limited)) = Some (SendStatus 500)"
    by auto
  show ?thesis
    using n a k ne up m l pu o pl basic f0 poll s0 j0 asset unfolding bt by simp
qed
section \<open>List handlers\<close>

text \<open>
  C6: when the regular upscaler names start with \<open>None\<close>, the combined list is
  \<open>None\<close>, then the latent upscalers, then the remaining regular upscalers, each in
  its own order; this holds for the handler that asks the backend for the latent upscalers
  and for the one that has them built in.
\<close>

theorem upscalers_compose:
  assumes "parsed_url req = Some u"
    and "ok r1" and "body_json r1 = Some d1" and "names_of d1 = Inr (Str (lit ''None'') # upscalers)"
    and "ok r2" and "body_json r2 = Some d2" and "names_of d2 = Inr latent"
  shows "snd (sd_upscalers req (Response r1) (Response r2) latent_first)
           = Send 200 (Arr (Str (lit ''None'') # latent @ upscalers))
       \<and> snd (sdnext_upscalers req (Response r1))
           = Send 200 (Arr (Str (lit ''None'') # sdnext_latentUpscalers @ upscalers))"
proof -
  have 1: "getUpscalerModels req (Response r1) =
     (fst (webui_get req (lit ''/sdapi/v1/upscalers'') None (Response r1)), Inr (Str (lit ''None'') # upscalers))"
    using assms by (simp add: getUpscalerModels_def webui_get_ok) (simp add: act_defs)
  have 2: "getLatentUpscalers req (Response r2) =
     (fst (webui_get req (lit ''/sdapi/v1/latent-upscale-modes'') None (Response r2)), Inr latent)"
    using assms by (simp add: getLatentUpscalers_def webui_get_ok) (simp add: act_defs)
  have a: "snd (sd_upscalers req (Response r1) (Response r2) latent_first)
           = Send 200 (Arr (Str (lit ''None'') # latent @ upscalers))"
    unfolding sd_upscalers_def 1 2 by (simp add: act_defs splice_insert_def)
  have b: "snd (sdnext_upscalers req (Response r1))
           = Send 200 (Arr (Str (lit ''None'') # sdnext_latentUpscalers @ upscalers))"
    using assms by (simp add: sdnext_upscalers_def webui_get_ok) (simp add: act_defs splice_insert_def)
  from a b show ?thesis by simp
qed

theorem upscalers_compose_witness:
  "parsed_url example_request = Some example_url \<and> ok (ok_response upscalers_data) \<and> ok (ok_response latent_data)
   \<and> names_of upscalers_data = Inr (Str (lit ''None'') # [Str (lit ''Lanczos''), Str (lit ''ESRGAN_4x'')])
   \<and> names_of latent_data = Inr [Str (lit ''Latent''), Str (lit ''Latent (nearest)'')]
   \<and> snd (sd_upscalers example_request (Response (ok_response upscalers_data)) (Response (ok_response latent_data)) False)
       = Send 200 (Arr (map (\<lambda>s. Str (lit s)) [''None'', ''Latent'', ''Latent (nearest)'', ''Lanczos'', ''ESRGAN_4x'']))
   \<and> snd (sdnext_upscalers example_request (Response (ok_response upscalers_data)))
       = Send 200 (Arr (map (\<lambda>s. Str (lit s)) [''None'', ''Latent'', ''Latent (antialiased)'', ''Latent (bicubic)'',
       ''Latent (bicubic antialiased)'', ''Latent (nearest)'', ''Latent (nearest-exact)'', ''Lanczos'', ''ESRGAN_4x'']))"
proof -
  have h1: "parsed_url example_request = Some example_url" by (simp add: example_request_def)
  have h2: "ok (ok_response upscalers_data)" "ok (ok_response latent_data)" by (simp_all add: ok_def ok_response_def)
  have h3: "body_json (ok_response upscalers_data) = Some upscalers_data" "body_json (ok_response latent_data) = Some latent_data"
    by (simp_all add: ok_response_def)
  have h4: "names_of upscalers_data = Inr (Str (lit ''None'') # [Str (lit ''Lanczos''), Str (lit ''ESRGAN_4x'')])"
    by (simp add: names_of_def upscalers_data_def)
  have h5: "names_of latent_data = Inr [Str (lit ''Latent''), Str (lit ''Latent (nearest)'')]"
    by (simp add: names_of_def latent_data_def)
  show ?thesis
    using h1 h2 h4 h5 upscalers_compose[OF h1 h2(1) h3(1) h4 h2(2) h3(2) h5, of False]
    by (simp add: sdnext_latentUpscalers_def)
qed

lemma map_exn_model_entry:
  "\<forall>x\<in>set xs. \<not> nullish x \<Longrightarrow>
   map_exn model_entry xs = Inr (map (\<lambda>x. Obj [(lit ''value'', title_of x), (lit ''text'', title_of x)]) xs)"
proof (induction xs)
  case (Cons x xs)
  then have "\<not> nullish x" by simp
  then obtain t where "get_prop x (lit ''title'') = Inr t"
    by (cases x) (simp_all add: nullish_def)
  then show ?case using Cons by (simp add: model_entry_def title_of_def)
qed simp

text \<open>
  C8: the models handler answers with one pair per entry of the backend list, in the same
  order, whose \<open>value\<close> and \<open>text\<close> are both the entry's title.
\<close>

theorem models_value_text_title:
  assumes "parsed_url req = Some u" and "ok r" and "body_json r = Some (Arr xs)"
    and "\<forall>x\<in>set xs. \<not> nullish x"
  shows "snd (sd_models req (Response r))
           = Send 200 (Arr (map (\<lambda>x. Obj [(lit ''value'', title_of x), (lit ''text'', title_of x)]) xs))"
  using assms by (simp add: sd_models_def webui_get_ok map_exn_model_entry) (simp add: act_defs map_exn_model_entry)

theorem models_value_text_title_witness:
  "parsed_url example_request = Some example_url \<and> ok (ok_response models_data)
   \<and> snd (sd_models example_request (Response (ok_response models_data)))
       = Send 200 (Arr [
           Obj [(lit ''value'', Str (lit ''v1-5-pruned.ckpt [e1441589a6]'')), (lit ''text'', Str (lit ''v1-5-pruned.ckpt [e1441589a6]''))],
           Obj [(lit ''value'', Str (lit ''anything-v3.safetensors'')), (lit ''text'', Str (lit ''anything-v3.safetensors''))]])"
proof -
  have h1: "parsed_url example_request = Some example_url" by (simp add: example_request_def)
  have h2: "ok (ok_response models_data)" by (simp add: ok_def ok_response_def)
  have h3: "body_json (ok_response models_data) = Some (Arr [Obj [(lit ''title'', Str (lit ''v1-5-pruned.ckpt [e1441589a6]'')), (lit ''model_name'', Str (lit ''v1-5-pruned''))],
     Obj [(lit ''title'', Str (lit ''anything-v3.safetensors'')), (lit ''model_name'', Str (lit ''anything-v3''))]])"
    by (simp add: ok_response_def models_data_def)
  show ?thesis using h1 h2 models_value_text_title[OF h1 h2 h3] by (simp add: nullish_def title_of_def)
qed

section \<open>Prompt expansion\<close>

lemma removePattern_Str:
  "removePattern (Str s) ps = Inr (Str (filter (\<lambda>c. c \<notin> set ps) s))"
proof (induction ps arbitrary: s)
  case (Cons p ps)
  have "filter (\<lambda>c. c \<notin> set ps) (filter (\<lambda>c. c \<noteq> p) s) = filter (\<lambda>c. c \<notin> set (p # ps)) s"
    by (induction s) auto
  then show ?case using Cons by simp
qed simp

lemma sd_expand_no_prompt:
  "\<not> truthy (field req (lit ''prompt'')) \<Longrightarrow>
   snd (sd_expand rt req second pl) = Send 200 (Obj [(lit ''prompt'', Str [])])"
  by (simp add: sd_expand_def)

lemma sd_expand_unfold:
  assumes "truthy (field req (lit ''prompt''))" and "pipe_input rt req second = Some p"
  shows "sd_expand rt req second pl =
     (case
        bindA (emit (Log [LStr ''Refine prompt input:'', LVal (field req (lit ''prompt''))])) (\<lambda>_.
        bindA (of_result (run_pipeline pl p)) (\<lambda>result.
        bindA (of_result (get_path result [lit ''0'', lit ''generated_text''])) (\<lambda>newText.
        bindA (of_result (removePattern newText dangerousPatterns)) (\<lambda>cleaned.
        bindA (of_result (safeStr rt cleaned)) (\<lambda>newPrompt.
        bindA (emit (Log [LStr ''Refine prompt output:'', LVal (Str newPrompt)])) (\<lambda>_.
        ret (Send 200 (Obj [(lit ''prompt'', Str newPrompt)]))))))))
      of (t, Inr r) \<Rightarrow> (t, r)
       | (t, Inl e) \<Rightarrow>
           (t @ [Log [LStr ''Failed to load transformers.js pipeline.'']],
            Send 200 (Obj [(lit ''prompt'', field req (lit ''prompt''))])))"
proof -
  from assms(2) obtain safe where s: "safeStr rt (field req (lit ''prompt'')) = Inr safe"
    and p: "p = safe @ splitStrings ! (if second then 1 else 0)"
    by (auto simp: pipe_input_def split: sum.splits)
  show ?thesis unfolding sd_expand_def Let_def p using assms(1) s by (simp split del: if_split)
qed

lemma sd_expand_failure:
  assumes "truthy (field req (lit ''prompt''))"
    and "pipe_input rt req second = Some p"
    and "run_pipeline pl p = Inl e"
  shows "snd (sd_expand rt req second pl) = Send 200 (Obj [(lit ''prompt'', field req (lit ''prompt''))])"
  unfolding sd_expand_unfold[OF assms(1,2)] using assms(3)
  by (simp add: ret_def emit_def bindA_def of_result_def)

lemma sd_expand_success:
  assumes "truthy (field req (lit ''prompt''))"
    and "pipe_input rt req second = Some p"
    and "run_pipeline pl p = Inr result"
    and "get_path result [lit ''0'', lit ''generated_text''] = Inr (Str newText)"
  shows "\<exists>out. safeStr rt (Str (filter (\<lambda>c. c \<notin> set dangerousPatterns) newText)) = Inr out
     \<and> snd (sd_expand rt req second pl) = Send 200 (Obj [(lit ''prompt'', Str out)])"
  unfolding sd_expand_unfold[OF assms(1,2)] using assms(3,4)
  by (simp add: ret_def emit_def bindA_def of_result_def removePattern_Str safeStr_Str)

lemma removePattern_Inr_Str:
  "removePattern v dangerousPatterns = Inr c \<Longrightarrow> \<exists>s. v = Str s"
  by (cases v) (simp_all add: dangerousPatterns_def)

lemma sd_expand_cases:
  assumes "truthy (field req (lit ''prompt''))" and "pipe_input rt req second = Some p"
  shows "snd (sd_expand rt req second pl) = Send 200 (Obj [(lit ''prompt'', field req (lit ''prompt''))])
       \<or> (\<exists>result newText out. run_pipeline pl p = Inr result
            \<and> get_path result [lit ''0'', lit ''generated_text''] = Inr (Str newText)
            \<and> safeStr rt (Str (filter (\<lambda>c. c \<notin> set dangerousPatterns) newText)) = Inr out
            \<and> snd (sd_expand rt req second pl) = Send 200 (Obj [(lit ''prompt'', Str out)]))"
proof (cases "run_pipeline pl p")
  case (Inl e)
  then show ?thesis using sd_expand_failure[OF assms] by blast
next
  case (Inr result)
  show ?thesis
  proof (cases "get_path result [lit ''0'', lit ''generated_text'']")
    case (Inl e)
    then show ?thesis unfolding sd_expand_unfold[OF assms] using Inr
      by (simp add: ret_def emit_def bindA_def of_result_def)
  next
    case g: (Inr newText)
    show ?thesis
    proof (cases "removePattern newText dangerousPatterns")
      case (Inl e)
      then show ?thesis unfolding sd_expand_unfold[OF assms] using Inr g
        by (simp add: ret_def emit_def bindA_def of_result_def)
    next
      case r: (Inr c)
      then obtain s where "newText = Str s" using removePattern_Inr_Str by blast
      with g have g': "get_path result [lit ''0'', lit ''generated_text''] = Inr (Str s)" by simp
      show ?thesis using sd_expand_success[OF assms Inr g'] Inr g' by blast
    qed
  qed
qed

text \<open>
  A prompt that is truthy and whose conversion to a string throws leaves the request
  without an answer.
\<close>

lemma sd_expand_no_reply:
  assumes "truthy (field req (lit ''prompt''))" and "\<not> convertible (field req (lit ''prompt''))"
  shows "snd (sd_expand rt req second pl) = NoReply"
  using assms not_convertible_to_string(1)[OF assms(2), of rt]
  by (simp add: sd_expand_def safeStr_def Let_def)

text \<open>
  C9 (as stated): the prompt-expansion handler never surfaces a failure to the caller.
  For the request body \<open>{"prompt": {"toString": 0}}\<close> the prompt is truthy and
  \<open>safeStr(originalPrompt)\<close>, which stands before the \<open>try\<close> block, throws a
  \<open>TypeError\<close>: the handler answers nothing at all, whatever the pipeline does.
\<close>

theorem expand_throws_before_try:
  "truthy (field toString_request (lit ''prompt''))
   \<and> sd_expand example_runtime toString_request False (Pipe echo_pipe)
       = ([Log [LStr ''Refine prompt input:'', LVal (Obj [(lit ''toString'', Num 0)])]], NoReply)
   \<and> sd_expand example_runtime toString_request False ImportFails
       = ([Log [LStr ''Refine prompt input:'', LVal (Obj [(lit ''toString'', Num 0)])]], NoReply)"
  by (simp add: sd_expand_def field_def toString_request_def safeStr_def)

text \<open>
  C9 (amended): for every request whose prompt converts to a string without throwing
  (every primitive value, every object without an own property \<open>toString\<close>, every
  array of such values) the handler answers under status 200.  Without a prompt it answers
  \<open>{prompt: ''}\<close>; when the pipeline cannot be loaded or the generation call throws it
  answers the original prompt unchanged; and whenever a prompt is given the answer is either
  the original prompt or, after a successful generation, the sanitized generated text.
\<close>

theorem expand_answers_when_prompt_converts:
  assumes "convertible (field req (lit ''prompt''))"
  shows "(\<exists>v. snd (sd_expand rt req second pl) = Send 200 v)
   \<and> (\<not> truthy (field req (lit ''prompt'')) \<longrightarrow>
        snd (sd_expand rt req second pl) = Send 200 (Obj [(lit ''prompt'', Str [])]))
   \<and> (truthy (field req (lit ''prompt'')) \<longrightarrow>
        (\<exists>p. pipe_input rt req second = Some p
          \<and> (pl = ImportFails \<or> pl = GetPipelineFails \<or> (\<exists>pipe. pl = Pipe pipe \<and> pipe p = None) \<longrightarrow>
               snd (sd_expand rt req second pl)
                 = Send 200 (Obj [(lit ''prompt'', field req (lit ''prompt''))]))
          \<and> (snd (sd_expand rt req second pl)
                 = Send 200 (Obj [(lit ''prompt'', field req (lit ''prompt''))])
               \<or> (\<exists>result newText out. run_pipeline pl p = Inr result
                    \<and> get_path result [lit ''0'', lit ''generated_text''] = Inr (Str newText)
                    \<and> safeStr rt (Str (filter (\<lambda>c. c \<notin> set dangerousPatterns) newText)) = Inr out
                    \<and> snd (sd_expand rt req second pl) = Send 200 (Obj [(lit ''prompt'', Str out)])))
          \<and> (\<forall>result newText. run_pipeline pl p = Inr result
                \<and> get_path result [lit ''0'', lit ''generated_text''] = Inr (Str newText) \<longrightarrow>
                (\<exists>out. safeStr rt (Str (filter (\<lambda>c. c \<notin> set dangerousPatterns) newText)) = Inr out
                   \<and> snd (sd_expand rt req second pl) = Send 200 (Obj [(lit ''prompt'', Str out)])))))"
proof -
  obtain safe where s: "safeStr rt (field req (lit ''prompt'')) = Inr safe"
    using convertible_safeStr[OF assms] by blast
  define p where "p = safe @ splitStrings ! (if second then 1 else 0)"
  have pi: "pipe_input rt req second = Some p" by (simp add: pipe_input_def s p_def)
  have f: "snd (sd_expand rt req second pl) = Send 200 (Obj [(lit ''prompt'', field req (lit ''prompt''))])"
    if t: "truthy (field req (lit ''prompt''))"
      and q: "pl = ImportFails \<or> pl = GetPipelineFails \<or> (\<exists>pipe. pl = Pipe pipe \<and> pipe p = None)"
  proof -
    obtain e where "run_pipeline pl p = Inl e"
      using q by (auto simp: run_pipeline_def)
    then show ?thesis using sd_expand_failure[OF t pi] by blast
  qed
  have a: "\<exists>v. snd (sd_expand rt req second pl) = Send 200 v"
  proof (cases "truthy (field req (lit ''prompt''))")
    case True
    then show ?thesis using sd_expand_cases[OF True pi, of pl] by blast
  next
    case False
    then show ?thesis using sd_expand_no_prompt by blast
  qed
  have c: "\<exists>p. pipe_input rt req second = Some p
          \<and> (pl = ImportFails \<or> pl = GetPipelineFails \<or> (\<exists>pipe. pl = Pipe pipe \<and> pipe p = None) \<longrightarrow>
               snd (sd_expand rt req second pl)
                 = Send 200 (Obj [(lit ''prompt'', field req (lit ''prompt''))]))
          \<and> (snd (sd_expand rt req second pl)
                 = Send 200 (Obj [(lit ''prompt'', field req (lit ''prompt''))])
               \<or> (\<exists>result newText out. run_pipeline pl p = Inr result
                    \<and> get_path result [lit ''0'', lit ''generated_text''] = Inr (Str newText)
                    \<and> safeStr rt (Str (filter (\<lambda>c. c \<notin> set dangerousPatterns) newText)) = Inr out
                    \<and> snd (sd_expand rt req second pl) = Send 200 (Obj [(lit ''prompt'', Str out)])))
          \<and> (\<forall>result newText. run_pipeline pl p = Inr result
                \<and> get_path result [lit ''0'', lit ''generated_text''] = Inr (Str newText) \<longrightarrow>
                (\<exists>out. safeStr rt (Str (filter (\<lambda>c. c \<notin> set dangerousPatterns) newText)) = Inr out
                   \<and> snd (sd_expand rt req second pl) = Send 200 (Obj [(lit ''prompt'', Str out)])))"
    if t: "truthy (field req (lit ''prompt''))"
  proof -
    have c1: "pl = ImportFails \<or> pl = GetPipelineFails \<or> (\<exists>pipe. pl = Pipe pipe \<and> pipe p = None) \<longrightarrow>
               snd (sd_expand rt req second pl)
                 = Send 200 (Obj [(lit ''prompt'', field req (lit ''prompt''))])"
      using f[OF t] by blast
    have c2: "snd (sd_expand rt req second pl)
                 = Send 200 (Obj [(lit ''prompt'', field req (lit ''prompt''))])
               \<or> (\<exists>result newText out. run_pipeline pl p = Inr result
                    \<and> get_path result [lit ''0'', lit ''generated_text''] = Inr (Str newText)
                    \<and> safeStr rt (Str (filter (\<lambda>c. c \<notin> set dangerousPatterns) newText)) = Inr out
                    \<and> snd (sd_expand rt req second pl) = Send 200 (Obj [(lit ''prompt'', Str out)]))"
      by (rule sd_expand_cases[OF t pi])
    have c3: "\<forall>result newText. run_pipeline pl p = Inr result
                \<and> get_path result [lit ''0'', lit ''generated_text''] = Inr (Str newText) \<longrightarrow>
                (\<exists>out. safeStr rt (Str (filter (\<lambda>c. c \<notin> set dangerousPatterns) newText)) = Inr out
                   \<and> snd (sd_expand rt req second pl) = Send 200 (Obj [(lit ''prompt'', Str out)]))"
      using sd_expand_success[OF t pi] by blast
    from pi c1 c2 c3 show ?thesis by (intro exI[of _ p] conjI)
  qed
  from a sd_expand_no_prompt c show ?thesis by blast
qed

theorem expand_answers_when_prompt_converts_witness:
  "convertible (field empty_request (lit ''prompt''))
   \<and> \<not> truthy (field empty_request (lit ''prompt''))
   \<and> snd (sd_expand example_runtime empty_request False ImportFails)
       = Send 200 (Obj [(lit ''prompt'', Str [])])
   \<and> convertible (field expand_request (lit ''prompt''))
   \<and> truthy (field expand_request (lit ''prompt''))
   \<and> pipe_input example_runtime expand_request False = Some (lit ''a cat [on] a mat, extremely'')
   \<and> snd (sd_expand example_runtime expand_request False ImportFails)
       = Send 200 (Obj [(lit ''prompt'', Str (lit ''a cat [on] a mat''))])
   \<and> snd (sd_expand example_runtime expand_request False GetPipelineFails)
       = Send 200 (Obj [(lit ''prompt'', Str (lit ''a cat [on] a mat''))])
   \<and> failing_pipe (lit ''a cat [on] a mat, extremely'') = None
   \<and> snd (sd_expand example_runtime expand_request False (Pipe failing_pipe))
       = Send 200 (Obj [(lit ''prompt'', Str (lit ''a cat [on] a mat''))])
   \<and> run_pipeline (Pipe echo_pipe) (lit ''a cat [on] a mat, extremely'')
       = Inr (Arr [Obj [(lit ''generated_text'', Str (lit ''a cat [on] a mat, extremely (detailed): fur.''))]])
   \<and> snd (sd_expand example_runtime expand_request False (Pipe echo_pipe))
       = Send 200 (Obj [(lit ''prompt'', Str (lit ''a cat on a mat, extremely detailed fur''))])"
proof -
  have c0: "convertible (field empty_request (lit ''prompt''))"
    by (simp add: field_def empty_request_def)
  have t0: "\<not> truthy (field empty_request (lit ''prompt''))"
    by (simp add: field_def empty_request_def)
  have fv: "field expand_request (lit ''prompt'') = Str (lit ''a cat [on] a mat'')"
    by (simp add: field_def expand_request_def)
  have c1: "convertible (field expand_request (lit ''prompt''))" unfolding fv by simp
  have t1: "truthy (field expand_request (lit ''prompt''))" unfolding fv by simp
  have fp: "failing_pipe (lit ''a cat [on] a mat, extremely'') = None"
    by (simp add: failing_pipe_def)
  have pin: "pipe_input example_runtime expand_request False = Some (lit ''a cat [on] a mat, extremely'')"
    unfolding pipe_input_def fv safeStr_Str funpow_16
    by (simp add: lit_def splitStrings_def trim_def strip_edges_def drop_end_def is_space_def is_edge_def)
  have rp: "run_pipeline (Pipe echo_pipe) (lit ''a cat [on] a mat, extremely'')
       = Inr (Arr [Obj [(lit ''generated_text'', Str (lit ''a cat [on] a mat, extremely (detailed): fur.''))]])"
    by (simp add: run_pipeline_def echo_pipe_def lit_def)
  have gp: "get_path (Arr [Obj [(lit ''generated_text'', Str (lit ''a cat [on] a mat, extremely (detailed): fur.''))]])
       [lit ''0'', lit ''generated_text''] = Inr (Str (lit ''a cat [on] a mat, extremely (detailed): fur.''))"
    by (simp add: array_index_def is_digit_def lit_def)
  have cl: "safeStr example_runtime (Str (filter (\<lambda>c. c \<notin> set dangerousPatterns) (lit ''a cat [on] a mat, extremely (detailed): fur.'')))
      = Inr (lit ''a cat on a mat, extremely detailed fur'')"
    unfolding safeStr_Str funpow_16
    by (simp add: lit_def dangerousPatterns_def trim_def strip_edges_def drop_end_def is_space_def is_edge_def)
  have a0: "snd (sd_expand example_runtime empty_request False ImportFails)
       = Send 200 (Obj [(lit ''prompt'', Str [])])"
    using expand_answers_when_prompt_converts[OF c0, of example_runtime False ImportFails] t0 by blast
  have a1: "snd (sd_expand example_runtime expand_request False ImportFails)
       = Send 200 (Obj [(lit ''prompt'', field expand_request (lit ''prompt''))])"
    using expand_answers_when_prompt_converts[OF c1, of example_runtime False ImportFails] t1 by blast
  have a2: "snd (sd_expand example_runtime expand_request False GetPipelineFails)
       = Send 200 (Obj [(lit ''prompt'', field expand_request (lit ''prompt''))])"
    using expand_answers_when_prompt_converts[OF c1, of example_runtime False GetPipelineFails] t1 by blast
  have a3: "snd (sd_expand example_runtime expand_request False (Pipe failing_pipe))
       = Send 200 (Obj [(lit ''prompt'', field expand_request (lit ''prompt''))])"
    using expand_answers_when_prompt_converts[OF c1, of example_runtime False "Pipe failing_pipe"] t1 fp pin
    by force
  have a4: "snd (sd_expand example_runtime expand_request False (Pipe echo_pipe))
       = Send 200 (Obj [(lit ''prompt'', Str (lit ''a cat on a mat, extremely detailed fur''))])"
    using expand_answers_when_prompt_converts[OF c1, of example_runtime False "Pipe echo_pipe"] t1 rp gp pin cl
    by force
  show ?thesis
    unfolding a0 a1 a2 a3 a4 fv using c0 t0 fp rp pin by simp
qed
section \<open>The wait for the model switch\<close>











lemma sd_set_model_unfold:
  assumes "parsed_url req = Some u" and "ok r"
  shows "sd_set_model rt req (Response r) progress =
     (case wait_loop rt req progress 0 of
        (t, Inr v) \<Rightarrow> (Fetch \<lparr>req_method = POST, req_url = UrlObject (set_pathname u (lit ''/sdapi/v1/options'')),
                     req_headers = [Content_Type_Json, Authorization_Basic (field req (lit ''auth''))],
                     req_body = JSON_stringify (Obj [(lit ''sd_model_checkpoint'', field req (lit ''model''))]), req_timeout = Some 0\<rparr> # t, SendStatus 200)
      | (t, Inl e) \<Rightarrow> (Fetch \<lparr>req_method = POST, req_url = UrlObject (set_pathname u (lit ''/sdapi/v1/options'')),
                     req_headers = [Content_Type_Json, Authorization_Basic (field req (lit ''auth''))],
                     req_body = JSON_stringify (Obj [(lit ''sd_model_checkpoint'', field req (lit ''model''))]), req_timeout = Some 0\<rparr> # t @ [Log [LExn e]], SendStatus 500))"
  using assms
  by (simp add: sd_set_model_def Let_def new_URL_def ret_def fetch_def bindA_def catch_log_500_def of_result_def split: prod.splits sum.splits)

text \<open>
  A poll that is not a progress report may end the handler with a 500: when the progress
  cannot be converted to a primitive, the comparison of the first round throws.
\<close>

lemma unconvertible_progress_ends_wait:
  "snd (sd_set_model example_runtime example_request (Response (ok_response Null))
          unconvertible_progress) = SendStatus 500
   \<and> length (polls (fst (sd_set_model example_runtime example_request (Response (ok_response Null))
          unconvertible_progress))) = 1
   \<and> delays (fst (sd_set_model example_runtime example_request (Response (ok_response Null))
          unconvertible_progress)) = []"
proof -
  have h1: "parsed_url example_request = Some example_url" by (simp add: example_request_def)
  have h2: "ok (ok_response Null)" by (simp add: ok_def ok_response_def)
  have c: "check_progress example_runtime example_request (unconvertible_progress 0) =
     ([Fetch \<lparr>req_method = GET,
               req_url = UrlObject (set_pathname example_url (lit ''/sdapi/v1/progress'')),
               req_headers = [Authorization_Basic (field example_request (lit ''auth''))],
               req_body = NoBody, req_timeout = Some 0\<rparr>], Inl TypeError)"
    unfolding check_progress_def getProgress_def unconvertible_progress_def webui_get_ok[OF h1]
    by (simp add: bindA_def json_of_def ret_def of_result_def ok_response_def)
  have w: "wait_loop example_runtime example_request unconvertible_progress 0 =
     ([Fetch \<lparr>req_method = GET,
               req_url = UrlObject (set_pathname example_url (lit ''/sdapi/v1/progress'')),
               req_headers = [Authorization_Basic (field example_request (lit ''auth''))],
               req_body = NoBody, req_timeout = Some 0\<rparr>], Inl TypeError)"
    by (subst wait_loop.simps) (simp add: c MAX_ATTEMPTS_def)
  show ?thesis unfolding sd_set_model_unfold[OF h1 h2] w by simp
qed

text \<open>
  Likewise when the job count cannot be converted to a string: the message of the first
  round throws.
\<close>

lemma unconvertible_job_count_ends_wait:
  "snd (sd_set_model example_runtime example_request (Response (ok_response Null))
          unconvertible_job_count) = SendStatus 500
   \<and> length (polls (fst (sd_set_model example_runtime example_request (Response (ok_response Null))
          unconvertible_job_count))) = 1
   \<and> delays (fst (sd_set_model example_runtime example_request (Response (ok_response Null))
          unconvertible_job_count)) = []"
proof -
  have h1: "parsed_url example_request = Some example_url" by (simp add: example_request_def)
  have h2: "ok (ok_response Null)" by (simp add: ok_def ok_response_def)
  have c: "check_progress example_runtime example_request (unconvertible_job_count 0) =
     ([Fetch \<lparr>req_method = GET,
               req_url = UrlObject (set_pathname example_url (lit ''/sdapi/v1/progress'')),
               req_headers = [Authorization_Basic (field example_request (lit ''auth''))],
               req_body = NoBody, req_timeout = Some 0\<rparr>], Inl TypeError)"
    unfolding check_progress_def getProgress_def unconvertible_job_count_def webui_get_ok[OF h1]
    by (simp add: bindA_def json_of_def ret_def of_result_def ok_response_def example_runtime_def)
  have w: "wait_loop example_runtime example_request unconvertible_job_count 0 =
     ([Fetch \<lparr>req_method = GET,
               req_url = UrlObject (set_pathname example_url (lit ''/sdapi/v1/progress'')),
               req_headers = [Authorization_Basic (field example_request (lit ''auth''))],
               req_body = NoBody, req_timeout = Some 0\<rparr>], Inl TypeError)"
    by (subst wait_loop.simps) (simp add: c MAX_ATTEMPTS_def)
  show ?thesis unfolding sd_set_model_unfold[OF h1 h2] w by simp
qed


section \<open>The polling generation flow\<close>

text \<open>
  C5 (as stated): on every sequence of history snapshots the loop ends if and only if
  some snapshot has the submitted job id as a key.  Not for the job id
  \<open>constructor\<close>: no snapshot of the empty history has it as a key, but
  \<open>history[id]\<close> is then the member that every object inherits under that name,
  which is truthy, so that the loop ends at the first poll without any wait (and the
  handler answers 500, as the member has no outputs).
\<close>

theorem member_name_ends_polling:
  "is_snapshot (empty_history 0) \<and> \<not> has_job (lit ''constructor'') (empty_history 0)
   \<and> poll_loop example_runtime example_url (Str (lit ''constructor'')) empty_history 0 []
       = Some ([history_get example_url], Inr Member)
   \<and> comfy_generate example_runtime example_request constructor_submit empty_history NetworkError
       = Some ([Fetch \<lparr>req_method = POST,
                       req_url = UrlObject (example_url\<lparr>pathname := lit ''/prompt''\<rparr>),
                       req_headers = [], req_body = RawBody Undefined, req_timeout = None\<rparr>,
                history_get (example_url\<lparr>pathname := lit ''/history''\<rparr>)],
               SendStatus 500)"
proof -
  have p: "history_poll example_runtime hurl (Str (lit ''constructor'')) (empty_history n)
             = ([history_get hurl], Inr Member)" for hurl n
    by (simp add: history_poll_def plain_get_def history_get_def act_defs empty_history_def
          ok_response_def ok_def get_computed_def object_prototype_members_def)
  have l: "poll_loop example_runtime hurl (Str (lit ''constructor'')) empty_history 0 acc
             = Some (acc @ [history_get hurl], Inr Member)" for hurl acc
    by (subst poll_loop.simps) (simp add: p)
  have s: "submit_job example_request constructor_submit =
     ([Fetch \<lparr>req_method = POST, req_url = UrlObject (example_url\<lparr>pathname := lit ''/prompt''\<rparr>),
               req_headers = [], req_body = RawBody Undefined, req_timeout = None\<rparr>],
      Inr (Str (lit ''constructor''), example_url\<lparr>pathname := lit ''/history''\<rparr>))"
    by (simp add: constructor_submit_def submit_job_def Let_def new_URL_def ret_def bindA_def
          fetch_def json_of_def of_result_def ok_response_def ok_def example_request_def
          set_pathname_def example_url_def field_def)
  have f: "fetch_asset example_runtime example_request Member NetworkError = ([], Inl TypeError)"
    by (simp add: fetch_asset_def bindA_def of_result_def)
  have 1: "is_snapshot (empty_history 0)"
    by (simp add: is_snapshot_def empty_history_def ok_response_def ok_def)
  have 2: "\<not> has_job (lit ''constructor'') (empty_history 0)"
    by (simp add: has_job_def empty_history_def ok_response_def)
  have 3: "comfy_generate example_runtime example_request constructor_submit empty_history NetworkError
       = Some ([Fetch \<lparr>req_method = POST,
                       req_url = UrlObject (example_url\<lparr>pathname := lit ''/prompt''\<rparr>),
                       req_headers = [], req_body = RawBody Undefined, req_timeout = None\<rparr>,
                history_get (example_url\<lparr>pathname := lit ''/history''\<rparr>)],
               SendStatus 500)"
    unfolding comfy_generate_def s by (simp add: l f bindA_def catch_500_def)
  from 1 2 l[of example_url "[]"] 3 show ?thesis by simp
qed

text \<open>
  C5 (amended): the polling loop has no bound.  For every job id that is not the name of a
  member of \<open>Object.prototype\<close>, on every infinite sequence of history snapshots the
  loop returns if and only if some snapshot has the job id as a key; when the first such
  snapshot is number \<open>n\<close> it has polled \<open>n + 1\<close> times and waited 100 after each
  of the \<open>n\<close> polls without the id; and when no snapshot has the id the loop, and with
  it the whole handler, never returns.
\<close>

theorem polling_is_unbounded:
  assumes "\<forall>n. is_snapshot (history n)" and "plain_id jid"
    and "parsed_url req = Some u" and "ok r" and "body_json r = Some d"
    and "get_prop d (lit ''prompt_id'') = Inr (Str jid)"
  shows "(poll_loop rt hurl (Str jid) history 0 acc \<noteq> None \<longleftrightarrow> (\<exists>n. has_job jid (history n)))
     \<and> (\<forall>n. has_job jid (history n) \<and> (\<forall>i<n. \<not> has_job jid (history i)) \<longrightarrow>
          (\<exists>item. poll_loop rt hurl (Str jid) history 0 acc
             = Some (acc @ concat (replicate n [history_get hurl, Delay 100]) @ [history_get hurl],
                     Inr item)))
     \<and> ((\<forall>n. \<not> has_job jid (history n)) \<longrightarrow> poll_loop rt hurl (Str jid) history 0 acc = None)
     \<and> (comfy_generate rt req (Response r) history asset = None
          \<longleftrightarrow> (\<forall>n. \<not> has_job jid (history n)))"
proof (intro conjI allI impI)
  show "poll_loop rt hurl (Str jid) history 0 acc \<noteq> None \<longleftrightarrow> (\<exists>n. has_job jid (history n))"
    by (rule poll_loop_iff[OF assms(1,2)])
next
  fix n assume a: "has_job jid (history n) \<and> (\<forall>i<n. \<not> has_job jid (history i))"
  then have "\<forall>i<n. is_snapshot (history i) \<and> \<not> has_job jid (history i)" using assms(1) by simp
  moreover have "is_snapshot (history n)" using assms(1) by simp
  ultimately show "\<exists>item. poll_loop rt hurl (Str jid) history 0 acc
             = Some (acc @ concat (replicate n [history_get hurl, Delay 100]) @ [history_get hurl],
                     Inr item)"
    using poll_loop_found[OF assms(2)] a by blast
next
  assume "\<forall>n. \<not> has_job jid (history n)"
  then show "poll_loop rt hurl (Str jid) history 0 acc = None" by (rule poll_loop_never[OF assms(1,2)])
next
  show "comfy_generate rt req (Response r) history asset = None
          \<longleftrightarrow> (\<forall>n. \<not> has_job jid (history n))"
  proof -
    have k: "poll_loop rt (set_pathname u (lit ''/history'')) (Str jid) history 0 t = None
               \<longleftrightarrow> (\<forall>n. \<not> has_job jid (history n))" for t
      using poll_loop_iff[OF assms(1,2), of rt "set_pathname u (lit ''/history'')" t] by blast
    show ?thesis
      unfolding comfy_generate_def submit_job_ok[OF assms(3-6)] by (simp add: k)
  qed
qed

theorem polling_is_unbounded_witness:
  "(\<forall>n. is_snapshot (empty_history n)) \<and> plain_id (lit ''abc123'')
   \<and> parsed_url example_request = Some example_url
   \<and> ok (ok_response (Obj [(lit ''prompt_id'', Str (lit ''abc123''))]))
   \<and> comfy_generate example_runtime example_request scenario_submit empty_history NetworkError = None
   \<and> poll_loop example_runtime example_url (Str (lit ''abc123'')) empty_history 0 [] = None
   \<and> (\<forall>n. is_snapshot (scenario_history (lit ''9'') n))
   \<and> has_job (lit ''abc123'') (scenario_history (lit ''9'') 2)
   \<and> poll_loop example_runtime example_url (Str (lit ''abc123'')) (scenario_history (lit ''9'')) 0 []
       \<noteq> None"
proof -
  have e: "\<forall>n. is_snapshot (empty_history n)"
    by (simp add: is_snapshot_def empty_history_def ok_response_def ok_def)
  have pl: "plain_id (lit ''abc123'')"
    by (simp add: plain_id_def object_prototype_members_def)
  have ne: "\<forall>n. \<not> has_job (lit ''abc123'') (empty_history n)"
    by (simp add: has_job_def empty_history_def ok_response_def)
  have s: "\<forall>n. is_snapshot (scenario_history (lit ''9'') n)"
    by (simp add: is_snapshot_def scenario_history_def ok_response_def ok_def is_entry_def
          scenario_entry_def)
  have j: "has_job (lit ''abc123'') (scenario_history (lit ''9'') 2)"
    by (simp add: has_job_def scenario_history_def ok_response_def)
  have h: "parsed_url example_request = Some example_url" by (simp add: example_request_def)
  have o: "ok (ok_response (Obj [(lit ''prompt_id'', Str (lit ''abc123''))]))"
    by (simp add: ok_response_def ok_def)
  have b: "body_json (ok_response (Obj [(lit ''prompt_id'', Str (lit ''abc123''))]))
             = Some (Obj [(lit ''prompt_id'', Str (lit ''abc123''))])"
    by (simp add: ok_response_def)
  have g: "get_prop (Obj [(lit ''prompt_id'', Str (lit ''abc123''))]) (lit ''prompt_id'')
             = Inr (Str (lit ''abc123''))"
    by simp
  note t1 = polling_is_unbounded[OF e pl h o b g]
  note t2 = polling_is_unbounded[OF s pl h o b g]
  have 1: "poll_loop example_runtime example_url (Str (lit ''abc123'')) empty_history 0 [] = None"
    by (rule mp[OF t1[THEN conjunct2, THEN conjunct2, THEN conjunct1] ne])
  have 0: "comfy_generate example_runtime example_request scenario_submit empty_history NetworkError
             = None"
    unfolding scenario_submit_def
    by (rule iffD2[OF t1[THEN conjunct2, THEN conjunct2, THEN conjunct2] ne])
  have 2: "poll_loop example_runtime example_url (Str (lit ''abc123'')) (scenario_history (lit ''9'')) 0 []
       \<noteq> None"
    by (rule iffD2[OF t2[THEN conjunct1]]) (rule exI[of _ 2], rule j)
  from e pl h o 0 s j 1 2 show ?thesis by (intro conjI)
qed

lemma scenario_poll_empty:
  "n < 2 \<Longrightarrow> history_poll rt hurl (Str (lit ''abc123'')) (scenario_history node n)
     = ([history_get hurl], Inr (Own Undefined))"
  by (simp add: history_poll_def plain_get_def history_get_def act_defs scenario_history_def
        ok_response_def ok_def get_computed_def object_prototype_members_def is_object_def)

lemma scenario_poll_found:
  "\<not> n < 2 \<Longrightarrow> history_poll rt hurl (Str (lit ''abc123'')) (scenario_history node n)
     = ([history_get hurl], Inr (Own (scenario_entry node)))"
  by (simp add: history_poll_def plain_get_def history_get_def act_defs scenario_history_def
        ok_response_def ok_def get_computed_def)

lemma scenario_entry_truthy: "truthy (scenario_entry node)"
  by (simp add: scenario_entry_def)

lemma scenario_poll_loop:
  "poll_loop rt hurl (Str (lit ''abc123'')) (scenario_history node) 0 acc
     = Some (acc @ [history_get hurl, Delay 100, history_get hurl, Delay 100, history_get hurl],
             Inr (Own (scenario_entry node)))"
  apply (subst poll_loop.simps)
  apply (simp add: scenario_poll_empty)
  apply (subst poll_loop.simps)
  apply (simp add: scenario_poll_empty)
  apply (subst poll_loop.simps)
  apply (simp add: scenario_poll_found scenario_entry_truthy)
  done

lemma scenario_query:
  "set_search v (lit ''?filename='' @ lit ''x.png'' @ lit ''&subfolder='' @ lit ''&type='' @ lit ''output'')
     = v\<lparr>search := lit ''?filename=x.png&subfolder=&type=output''\<rparr>"
  by (simp add: set_search_def lit_Cons query_encode_byte_def utf8_of_code_point_def hex_digit_def)

lemma scenario_fetch_asset:
  assumes "parsed_url req = Some u"
  shows "fst (fetch_asset rt req (Own (scenario_entry node)) asset) =
     [Fetch \<lparr>req_method = GET,
             req_url = UrlObject ((set_pathname u (lit ''/view''))
                          \<lparr>search := lit ''?filename=x.png&subfolder=&type=output''\<rparr>),
             req_headers = [], req_body = NoBody, req_timeout = None\<rparr>]"
  using assms
  by (simp add: fetch_asset_def scenario_entry_def Let_def new_URL_def ret_def bindA_def
        of_result_def plain_get_def fetch_def throw_exn_def scenario_query split: fetch_result.splits)

text \<open>
  C4: in the scenario the flow issues the submission, three history polls with a wait of
  100 between consecutive polls, and then one \<open>GET\<close> of the asset-view endpoint whose
  query string is \<open>filename=x.png&subfolder=&type=output\<close>.
\<close>

theorem polling_scenario:
  assumes "parsed_url req = Some u"
  shows "map_option fst (comfy_generate rt req scenario_submit (scenario_history node) asset) =
     Some [
       Fetch \<lparr>req_method = POST, req_url = UrlObject (set_pathname u (lit ''/prompt'')),
              req_headers = [], req_body = RawBody (field req (lit ''prompt'')),
              req_timeout = None\<rparr>,
       history_get (set_pathname u (lit ''/history'')), Delay 100,
       history_get (set_pathname u (lit ''/history'')), Delay 100,
       history_get (set_pathname u (lit ''/history'')),
       Fetch \<lparr>req_method = GET,
              req_url = UrlObject ((set_pathname u (lit ''/view''))
                           \<lparr>search := lit ''?filename=x.png&subfolder=&type=output''\<rparr>),
              req_headers = [], req_body = NoBody, req_timeout = None\<rparr>]"
proof -
  have s: "submit_job req scenario_submit =
     ([Fetch \<lparr>req_method = POST, req_url = UrlObject (set_pathname u (lit ''/prompt'')),
               req_headers = [], req_body = RawBody (field req (lit ''prompt'')),
               req_timeout = None\<rparr>],
      Inr (Str (lit ''abc123''), set_pathname u (lit ''/history'')))"
    using assms
    by (simp add: scenario_submit_def submit_job_def Let_def new_URL_def ret_def bindA_def fetch_def
          json_of_def of_result_def ok_response_def ok_def)
  obtain t r where f: "fetch_asset rt req (Own (scenario_entry node)) asset = (t, r)" by force
  then have t: "t = [Fetch \<lparr>req_method = GET,
             req_url = UrlObject ((set_pathname u (lit ''/view''))
                          \<lparr>search := lit ''?filename=x.png&subfolder=&type=output''\<rparr>),
             req_headers = [], req_body = NoBody, req_timeout = None\<rparr>]"
    using scenario_fetch_asset[OF assms, of rt node asset] by simp
  show ?thesis
    unfolding comfy_generate_def s
    by (simp add: scenario_poll_loop bindA_def f t catch_500_def split: sum.splits)
qed

theorem polling_scenario_witness:
  "parsed_url example_request = Some example_url
   \<and> map_option (\<lambda>p. outbound_urls (fst p))
        (comfy_generate example_runtime example_request scenario_submit (scenario_history (lit ''9''))
           NetworkError)
     = Some [UrlObject (example_url\<lparr>pathname := lit ''/prompt''\<rparr>),
             UrlObject (example_url\<lparr>pathname := lit ''/history''\<rparr>),
             UrlObject (example_url\<lparr>pathname := lit ''/history''\<rparr>),
             UrlObject (example_url\<lparr>pathname := lit ''/history''\<rparr>),
             UrlObject (example_url\<lparr>pathname := lit ''/view'',
                          search := lit ''?filename=x.png&subfolder=&type=output''\<rparr>)]
   \<and> map_option (\<lambda>p. delays (fst p))
        (comfy_generate example_runtime example_request scenario_submit (scenario_history (lit ''9''))
           NetworkError)
     = Some [100, 100]"
proof -
  have h: "parsed_url example_request = Some example_url" by (simp add: example_request_def)
  have o: "\<not> opaque_path example_url" by (simp add: example_url_def)
  obtain p where p: "comfy_generate example_runtime example_request scenario_submit
      (scenario_history (lit ''9'')) NetworkError = Some p"
    using polling_scenario[OF h, of example_runtime "lit ''9''" NetworkError] by auto
  show ?thesis
    using h o polling_scenario[OF h, of example_runtime "lit ''9''" NetworkError]
    unfolding p by (simp add: history_get_def set_pathname_def)
qed

end
